theory Spec2Isabelle
  imports Complex_Main
begin

section \<open>Numbers, constants and data\<close>

text \<open>
  JavaScript numbers are modelled as exact rationals: every constant of the game is a
  decimal literal and the simulation only adds, subtracts, multiplies, compares and (once)
  divides. The one operation whose JavaScript result is not a finite number, the division
  by a zero \<open>jumpCount\<close> in the flying branch of \<open>handleJump\<close> (JavaScript yields
  \<open>-Infinity\<close>), is written out as the value \<open>None\<close>.
\<close>

definition CANVAS_WIDTH :: rat where "CANVAS_WIDTH = 800"
definition CANVAS_HEIGHT :: rat where "CANVAS_HEIGHT = 400"
definition GROUND_HEIGHT :: rat where "GROUND_HEIGHT = 50"
definition GRAVITY :: rat where "GRAVITY = 6 / 10"
definition JUMP_FORCE :: rat where "JUMP_FORCE = - 15"
definition FLYING_FORCE_MULTIPLIER :: rat where "FLYING_FORCE_MULTIPLIER = 5 / 10"
definition ENERGY_MAX :: rat where "ENERGY_MAX = 100"
definition ENERGY_JUMP_COST :: rat where "ENERGY_JUMP_COST = 20"
definition ENERGY_REFILL_RATE :: rat where "ENERGY_REFILL_RATE = 3 / 10"
definition GAME_DURATION :: rat where "GAME_DURATION = 30"
definition SCROLL_SPEED :: rat where "SCROLL_SPEED = 5"

lemmas game_constants =
  CANVAS_WIDTH_def CANVAS_HEIGHT_def GROUND_HEIGHT_def GRAVITY_def JUMP_FORCE_def
  FLYING_FORCE_MULTIPLIER_def ENERGY_MAX_def ENERGY_JUMP_COST_def ENERGY_REFILL_RATE_def
  GAME_DURATION_def SCROLL_SPEED_def

text \<open>The object literals of the source: every entity carries a bounding box.\<close>

record box =
  x :: rat
  y :: rat
  width :: rat
  height :: rat

record player = box +
  velocityY :: rat
  isJumping :: bool
  jumpCount :: nat

text \<open>
  An obstacle is created without a \<open>passed\<close> property; \<open>!obstacles[i].passed\<close> then reads
  \<open>undefined\<close> as false, so the absent property is the value \<open>False\<close>.
\<close>

record obstacle = box +
  type :: int
  passed :: bool

record melinjo = box +
  collected :: bool

text \<open>The top-level variables of the program (the canvas and its context are left out).\<close>

record game =
  player :: player
  obstacles :: "obstacle list"
  melinjos :: "melinjo list"
  gameTime :: rat
  gameActive :: bool
  lastTimestamp :: rat
  energy :: rat

section \<open>The random source\<close>

text \<open>
  \<open>Math.random()\<close> returns a number in \<open>[0, 1)\<close>. A run of the program sees a sequence of
  such draws; \<open>Math_random rnd i\<close> is the \<open>i\<close>-th draw of the sequence \<open>rnd\<close>, and the
  generators thread the index of the next unused draw.
\<close>

typedef draw = "{r :: rat. 0 \<le> r \<and> r < 1}"
  by (rule exI [of _ 0]) simp

setup_lifting type_definition_draw

lift_definition draw_zero :: draw is 0
  by simp

lift_definition draw_half :: draw is "1 / 2"
  by simp

definition Math_random :: "(nat \<Rightarrow> draw) \<Rightarrow> nat \<Rightarrow> rat" where
  "Math_random rnd i = Rep_draw (rnd i)"

lemma Math_random_range: "0 \<le> Math_random rnd i \<and> Math_random rnd i < 1"
  using Rep_draw [of "rnd i"] by (simp add: Math_random_def)

lemma Math_random_zero [simp]: "Math_random (\<lambda>_. draw_zero) i = 0"
  by (simp add: Math_random_def draw_zero.rep_eq)

lemma Math_random_half [simp]: "Math_random (\<lambda>_. draw_half) i = 1 / 2"
  by (simp add: Math_random_def draw_half.rep_eq)

section \<open>Level generation (game.js)\<close>

definition totalDistance :: rat where
  "totalDistance = SCROLL_SPEED * GAME_DURATION * 60"

lemma totalDistance_value: "totalDistance = 9000"
  by (simp add: totalDistance_def game_constants)

text \<open>
  One obstacle: the draws are taken in the order of the source (type, width, then height
  for a rock only). The result is the obstacle and the index of the next unused draw.
\<close>

definition newObstacle :: "(nat \<Rightarrow> draw) \<Rightarrow> nat \<Rightarrow> rat \<Rightarrow> obstacle \<times> nat" where
  "newObstacle rnd i position =
     (let ty = \<lfloor>Math_random rnd i * 2\<rfloor>;
          w = (if ty = 0 then 30 + Math_random rnd (i + 1) * 20
               else 60 + Math_random rnd (i + 1) * 40);
          h = (if ty = 0 then 20 + Math_random rnd (i + 2) * 30 else 20);
          j = (if ty = 0 then i + 3 else i + 2)
      in (\<lparr>x = position, y = CANVAS_HEIGHT - GROUND_HEIGHT - h, width = w, height = h,
            type = ty, passed = False\<rparr>, j))"

function generateObstacles_loop ::
  "(nat \<Rightarrow> draw) \<Rightarrow> nat \<Rightarrow> obstacle list \<Rightarrow> rat \<Rightarrow> obstacle list \<times> nat" where
  "generateObstacles_loop rnd i obs position =
     (if position < totalDistance + 800 then
        generateObstacles_loop rnd (snd (newObstacle rnd i position) + 1)
          (obs @ [fst (newObstacle rnd i position)])
          (position + 300 + Math_random rnd (snd (newObstacle rnd i position)) * 300)
      else (obs, i))"
  by pat_completeness auto

lemma ceiling_gap_decreases:
  fixes position :: rat
  assumes "position < bound" and "1 \<le> gap" and "0 \<le> r"
  shows "nat \<lceil>bound - (position + gap + r)\<rceil> < nat \<lceil>bound - position\<rceil>"
proof -
  have "bound - (position + gap + r) \<le> bound - position - 1"
    using assms by simp
  then have "\<lceil>bound - (position + gap + r)\<rceil> \<le> \<lceil>bound - position - 1\<rceil>"
    by (rule ceiling_mono)
  then have "\<lceil>bound - (position + gap + r)\<rceil> \<le> \<lceil>bound - position\<rceil> - 1"
    by simp
  moreover have "0 < \<lceil>bound - position\<rceil>"
    using assms by simp
  ultimately show ?thesis
    by linarith
qed

termination generateObstacles_loop
proof (relation "measure (\<lambda>(rnd, i, obs, position). nat \<lceil>totalDistance + 800 - position\<rceil>)")
  show "wf (measure (\<lambda>(rnd :: nat \<Rightarrow> draw, i :: nat, obs :: obstacle list, position).
              nat \<lceil>totalDistance + 800 - position\<rceil>))"
    by simp
next
  fix rnd :: "nat \<Rightarrow> draw" and i :: nat and obs :: "obstacle list" and position :: rat
  assume "position < totalDistance + 800"
  then have "nat \<lceil>totalDistance + 800
                 - (position + 300 + Math_random rnd (snd (newObstacle rnd i position)) * 300)\<rceil>
             < nat \<lceil>totalDistance + 800 - position\<rceil>"
    using Math_random_range [of rnd "snd (newObstacle rnd i position)"]
    by (intro ceiling_gap_decreases) simp_all
  then show "((rnd, snd (newObstacle rnd i position) + 1, obs @ [fst (newObstacle rnd i position)],
               position + 300 + Math_random rnd (snd (newObstacle rnd i position)) * 300),
              (rnd, i, obs, position))
             \<in> measure (\<lambda>(rnd, i, obs, position). nat \<lceil>totalDistance + 800 - position\<rceil>)"
    by simp
qed

declare generateObstacles_loop.simps [simp del]

definition generateObstacles :: "(nat \<Rightarrow> draw) \<Rightarrow> nat \<Rightarrow> obstacle list \<times> nat" where
  "generateObstacles rnd i = generateObstacles_loop rnd i [] 800"

definition newMelinjo :: "(nat \<Rightarrow> draw) \<Rightarrow> nat \<Rightarrow> rat \<Rightarrow> melinjo" where
  "newMelinjo rnd i position =
     (let h = 100 + Math_random rnd i * 150
      in \<lparr>x = position, y = CANVAS_HEIGHT - GROUND_HEIGHT - h, width = 20, height = 20,
           collected = False\<rparr>)"

function generateMelinjos_loop ::
  "(nat \<Rightarrow> draw) \<Rightarrow> nat \<Rightarrow> melinjo list \<Rightarrow> rat \<Rightarrow> melinjo list \<times> nat" where
  "generateMelinjos_loop rnd i ms position =
     (if position < totalDistance + 800 then
        generateMelinjos_loop rnd (i + 2) (ms @ [newMelinjo rnd i position])
          (position + 200 + Math_random rnd (i + 1) * 400)
      else (ms, i))"
  by pat_completeness auto

termination generateMelinjos_loop
proof (relation "measure (\<lambda>(rnd, i, ms, position). nat \<lceil>totalDistance + 800 - position\<rceil>)")
  show "wf (measure (\<lambda>(rnd :: nat \<Rightarrow> draw, i :: nat, ms :: melinjo list, position).
              nat \<lceil>totalDistance + 800 - position\<rceil>))"
    by simp
next
  fix rnd :: "nat \<Rightarrow> draw" and i :: nat and ms :: "melinjo list" and position :: rat
  assume "position < totalDistance + 800"
  then have "nat \<lceil>totalDistance + 800 - (position + 200 + Math_random rnd (i + 1) * 400)\<rceil>
             < nat \<lceil>totalDistance + 800 - position\<rceil>"
    using Math_random_range [of rnd "i + 1"]
    by (intro ceiling_gap_decreases) simp_all
  then show "((rnd, i + 2, ms @ [newMelinjo rnd i position],
               position + 200 + Math_random rnd (i + 1) * 400),
              (rnd, i, ms, position))
             \<in> measure (\<lambda>(rnd, i, ms, position). nat \<lceil>totalDistance + 800 - position\<rceil>)"
    by simp
qed

declare generateMelinjos_loop.simps [simp del]

definition generateMelinjos :: "(nat \<Rightarrow> draw) \<Rightarrow> nat \<Rightarrow> melinjo list \<times> nat" where
  "generateMelinjos rnd i = generateMelinjos_loop rnd i [] 800"

section \<open>Start-up (game.js)\<close>

text \<open>
  \<open>window.onload\<close>: the initial values of the top-level variables, the player literal and
  the two generator calls, which share one sequence of draws.
\<close>

definition initialPlayer :: player where
  "initialPlayer =
     \<lparr>x = 100, y = CANVAS_HEIGHT - GROUND_HEIGHT - 40, width = 50, height = 40,
      velocityY = 0, isJumping = False, jumpCount = 0\<rparr>"

definition onload :: "(nat \<Rightarrow> draw) \<Rightarrow> game" where
  "onload rnd =
     (let (obs, i) = generateObstacles rnd 0;
          (ms, j) = generateMelinjos rnd i
      in \<lparr>player = initialPlayer, obstacles = obs, melinjos = ms, gameTime = 0,
           gameActive = True, lastTimestamp = 0, energy = ENERGY_MAX\<rparr>)"

section \<open>Jumping (game.js)\<close>

text \<open>
  \<open>handleJump\<close>. The flying branch divides by \<open>player.jumpCount\<close>; at \<open>jumpCount = 0\<close> the
  quotient is not a finite number and the result is \<open>None\<close>.
\<close>

definition handleJump :: "game \<Rightarrow> game option" where
  "handleJump s =
     (let p = player s in
      if \<not> isJumping p then
        (if energy s \<ge> ENERGY_JUMP_COST then
           Some (s\<lparr>player := p\<lparr>velocityY := JUMP_FORCE, isJumping := True, jumpCount := 1\<rparr>,
                   energy := energy s - ENERGY_JUMP_COST\<rparr>)
         else Some s)
      else
        (if energy s \<ge> ENERGY_JUMP_COST then
           (if jumpCount p = 0 then None
            else
              let flyingForce = JUMP_FORCE * FLYING_FORCE_MULTIPLIER / of_nat (jumpCount p)
              in Some (s\<lparr>player := p\<lparr>velocityY := flyingForce, jumpCount := jumpCount p + 1\<rparr>,
                         energy := energy s - ENERGY_JUMP_COST\<rparr>))
         else Some s))"

text \<open>
  The listeners that deliver a jump request: the \<open>keydown\<close> listener and the canvas
  \<open>touchstart\<close> listener of \<open>setupControls\<close>, and the \<open>touchstart\<close> listener of the jump
  button. (The listeners that \<open>drawGameOver\<close> adds reload the page and touch no variable
  of the running program; they are left out.)
\<close>

definition keydown :: "string \<Rightarrow> game \<Rightarrow> game option" where
  "keydown code s = (if code = ''Space'' \<and> gameActive s then handleJump s else Some s)"

definition canvasTouchstart :: "game \<Rightarrow> game option" where
  "canvasTouchstart s = (if gameActive s then handleJump s else Some s)"

definition jumpButtonTouchstart :: "game \<Rightarrow> game option" where
  "jumpButtonTouchstart s = (if gameActive s then handleJump s else Some s)"

section \<open>Per-frame updates (game.js)\<close>

definition updatePlayer :: "game \<Rightarrow> game" where
  "updatePlayer s =
     (let p = player s;
          p1 = p\<lparr>velocityY := velocityY p + GRAVITY\<rparr>;
          p2 = p1\<lparr>y := y p1 + velocityY p1\<rparr>;
          groundY = CANVAS_HEIGHT - GROUND_HEIGHT - height p2
      in if y p2 \<ge> groundY then
           s\<lparr>player := p2\<lparr>y := groundY, velocityY := 0, isJumping := False, jumpCount := 0\<rparr>\<rparr>
         else s\<lparr>player := p2\<rparr>)"

definition updateObstacles :: "game \<Rightarrow> game" where
  "updateObstacles s =
     s\<lparr>obstacles := map (\<lambda>ob. ob\<lparr>x := x ob - SCROLL_SPEED\<rparr>) (obstacles s)\<rparr>"

definition updateMelinjos :: "game \<Rightarrow> game" where
  "updateMelinjos s =
     s\<lparr>melinjos := map (\<lambda>m. m\<lparr>x := x m - SCROLL_SPEED\<rparr>) (melinjos s)\<rparr>"

definition updateEnergy :: "game \<Rightarrow> game" where
  "updateEnergy s =
     (if energy s < ENERGY_MAX then
        (let e = energy s + ENERGY_REFILL_RATE
         in if e > ENERGY_MAX then s\<lparr>energy := ENERGY_MAX\<rparr> else s\<lparr>energy := e\<rparr>)
      else s)"

section \<open>Collisions (game.js)\<close>

text \<open>The four strict comparisons that both loops of \<open>checkCollisions\<close> apply.\<close>

definition overlaps :: "player \<Rightarrow> 'a box_scheme \<Rightarrow> bool" where
  "overlaps p b \<longleftrightarrow>
     x p < x b + width b \<and> x p + width p > x b \<and> y p < y b + height b \<and> y p + height p > y b"

text \<open>
  The obstacle loop. The flag of the result says that the loop hit an obstacle, where the
  source sets \<open>gameActive = false\<close> and returns from \<open>checkCollisions\<close>.
\<close>

fun checkObstacles :: "player \<Rightarrow> obstacle list \<Rightarrow> obstacle list \<times> bool" where
  "checkObstacles p [] = ([], False)"
| "checkObstacles p (ob # obs) =
     (if \<not> passed ob \<and> overlaps p ob then (ob # obs, True)
      else
        (let ob' = (if x ob + width ob < x p \<and> \<not> passed ob then ob\<lparr>passed := True\<rparr> else ob);
             (obs', hit) = checkObstacles p obs
         in (ob' # obs', hit)))"

text \<open>The pickup loop, threading the energy.\<close>

fun checkMelinjos :: "player \<Rightarrow> melinjo list \<Rightarrow> rat \<Rightarrow> melinjo list \<times> rat" where
  "checkMelinjos p [] e = ([], e)"
| "checkMelinjos p (m # ms) e =
     (if \<not> collected m \<and> overlaps p m then
        (let e1 = e + 30;
             e2 = (if e1 > ENERGY_MAX then ENERGY_MAX else e1);
             (ms', e') = checkMelinjos p ms e2
         in (m\<lparr>collected := True\<rparr> # ms', e'))
      else
        (let (ms', e') = checkMelinjos p ms e in (m # ms', e')))"

definition checkCollisions :: "game \<Rightarrow> game" where
  "checkCollisions s =
     (let (obs', hit) = checkObstacles (player s) (obstacles s) in
      if hit then s\<lparr>obstacles := obs', gameActive := False\<rparr>
      else
        (let (ms', e') = checkMelinjos (player s) (melinjos s) (energy s);
             s1 = s\<lparr>obstacles := obs', melinjos := ms', energy := e'\<rparr>
         in if y (player s1) > CANVAS_HEIGHT then s1\<lparr>gameActive := False\<rparr> else s1))"

section \<open>The frame loop (game.js)\<close>

datatype banner = LevelComplete | GameOver

text \<open>\<open>drawGameOver\<close>: which of the two messages the overlay shows.\<close>

definition drawGameOver :: "game \<Rightarrow> banner" where
  "drawGameOver s = (if gameTime s \<ge> GAME_DURATION then LevelComplete else GameOver)"

text \<open>
  The body of \<open>if (gameActive)\<close> in \<open>gameLoop\<close>, in two parts: the clock with its time-up
  check, and the five calls that follow it.
\<close>

definition advanceClock :: "rat \<Rightarrow> game \<Rightarrow> game" where
  "advanceClock deltaTime s =
     (let s1 = s\<lparr>gameTime := gameTime s + deltaTime / 1000\<rparr>
      in if gameTime s1 \<ge> GAME_DURATION then s1\<lparr>gameActive := False\<rparr> else s1)"

definition updateAndCheck :: "game \<Rightarrow> game" where
  "updateAndCheck s =
     checkCollisions (updateEnergy (updateMelinjos (updateObstacles (updatePlayer s))))"

text \<open>
  \<open>gameLoop\<close>: the new values of the variables, and the overlay that the frame draws
  (\<open>None\<close> while the game is active).
\<close>

definition gameLoop :: "rat \<Rightarrow> game \<Rightarrow> game \<times> banner option" where
  "gameLoop timestamp s =
     (let deltaTime = timestamp - lastTimestamp s;
          s1 = s\<lparr>lastTimestamp := timestamp\<rparr>;
          s2 = (if gameActive s1 then updateAndCheck (advanceClock deltaTime s1) else s1)
      in (s2, if \<not> gameActive s2 then Some (drawGameOver s2) else None))"

section \<open>Runs of the program (game.js)\<close>

datatype event = Frame rat | Keydown string | CanvasTouchstart | JumpButtonTouchstart

fun step :: "event \<Rightarrow> game \<Rightarrow> game option" where
  "step (Frame timestamp) s = Some (fst (gameLoop timestamp s))"
| "step (Keydown code) s = keydown code s"
| "step CanvasTouchstart s = canvasTouchstart s"
| "step JumpButtonTouchstart s = jumpButtonTouchstart s"

fun run :: "event list \<Rightarrow> game \<Rightarrow> game option" where
  "run [] s = Some s"
| "run (e # es) s = (case step e s of None \<Rightarrow> None | Some s' \<Rightarrow> run es s')"

text \<open>
  The states a run can be in between two events. Timestamps are not restricted, so the
  set is a superset of what a browser can produce.
\<close>

inductive reachable :: "game \<Rightarrow> bool" where
  start: "reachable (onload rnd)"
| next_event: "reachable s \<Longrightarrow> step e s = Some s' \<Longrightarrow> reachable s'"

section \<open>The second variant of the program (src/unnamed/part_000)\<close>

text \<open>
  The second file declares the same constants and top-level variables. Its functions are
  transcribed here on their own, with the suffix \<open>_p0\<close>; it has no \<open>handleJump\<close> (the
  \<open>keydown\<close> listener holds the jump code) and no touch listeners.
\<close>

function generateObstacles_loop_p0 ::
  "(nat \<Rightarrow> draw) \<Rightarrow> nat \<Rightarrow> obstacle list \<Rightarrow> rat \<Rightarrow> obstacle list \<times> nat" where
  "generateObstacles_loop_p0 rnd i obs position =
     (if position < SCROLL_SPEED * GAME_DURATION * 60 + 800 then
        (let ty = \<lfloor>Math_random rnd i * 2\<rfloor>;
             w = (if ty = 0 then 30 + Math_random rnd (i + 1) * 20
                  else 60 + Math_random rnd (i + 1) * 40);
             h = (if ty = 0 then 20 + Math_random rnd (i + 2) * 30 else 20);
             j = (if ty = 0 then i + 3 else i + 2)
         in generateObstacles_loop_p0 rnd (j + 1)
              (obs @ [\<lparr>x = position, y = CANVAS_HEIGHT - GROUND_HEIGHT - h, width = w,
                        height = h, type = ty, passed = False\<rparr>])
              (position + 300 + Math_random rnd j * 300))
      else (obs, i))"
  by pat_completeness auto

termination generateObstacles_loop_p0
proof (relation "measure (\<lambda>(rnd, i, obs, position).
                   nat \<lceil>SCROLL_SPEED * GAME_DURATION * 60 + 800 - position\<rceil>)")
  show "wf (measure (\<lambda>(rnd :: nat \<Rightarrow> draw, i :: nat, obs :: obstacle list, position).
              nat \<lceil>SCROLL_SPEED * GAME_DURATION * 60 + 800 - position\<rceil>))"
    by simp
next
  fix rnd :: "nat \<Rightarrow> draw" and i j :: nat and obs :: "obstacle list" and position :: rat
    and ty :: int and w h :: rat
  assume "position < SCROLL_SPEED * GAME_DURATION * 60 + 800"
  then have "nat \<lceil>SCROLL_SPEED * GAME_DURATION * 60 + 800
                 - (position + 300 + Math_random rnd j * 300)\<rceil>
             < nat \<lceil>SCROLL_SPEED * GAME_DURATION * 60 + 800 - position\<rceil>"
    using Math_random_range [of rnd j]
    by (intro ceiling_gap_decreases) simp_all
  then show "((rnd, j + 1,
               obs @ [\<lparr>x = position, y = CANVAS_HEIGHT - GROUND_HEIGHT - h, width = w,
                        height = h, type = ty, passed = False\<rparr>],
               position + 300 + Math_random rnd j * 300),
              (rnd, i, obs, position))
             \<in> measure (\<lambda>(rnd, i, obs, position).
                          nat \<lceil>SCROLL_SPEED * GAME_DURATION * 60 + 800 - position\<rceil>)"
    by simp
qed

declare generateObstacles_loop_p0.simps [simp del]

definition generateObstacles_p0 :: "(nat \<Rightarrow> draw) \<Rightarrow> nat \<Rightarrow> obstacle list \<times> nat" where
  "generateObstacles_p0 rnd i = generateObstacles_loop_p0 rnd i [] 800"

function generateMelinjos_loop_p0 ::
  "(nat \<Rightarrow> draw) \<Rightarrow> nat \<Rightarrow> melinjo list \<Rightarrow> rat \<Rightarrow> melinjo list \<times> nat" where
  "generateMelinjos_loop_p0 rnd i ms position =
     (if position < SCROLL_SPEED * GAME_DURATION * 60 + 800 then
        (let h = 100 + Math_random rnd i * 150
         in generateMelinjos_loop_p0 rnd (i + 2)
              (ms @ [\<lparr>x = position, y = CANVAS_HEIGHT - GROUND_HEIGHT - h, width = 20,
                       height = 20, collected = False\<rparr>])
              (position + 200 + Math_random rnd (i + 1) * 400))
      else (ms, i))"
  by pat_completeness auto

termination generateMelinjos_loop_p0
proof (relation "measure (\<lambda>(rnd, i, ms, position).
                   nat \<lceil>SCROLL_SPEED * GAME_DURATION * 60 + 800 - position\<rceil>)")
  show "wf (measure (\<lambda>(rnd :: nat \<Rightarrow> draw, i :: nat, ms :: melinjo list, position).
              nat \<lceil>SCROLL_SPEED * GAME_DURATION * 60 + 800 - position\<rceil>))"
    by simp
next
  fix rnd :: "nat \<Rightarrow> draw" and i :: nat and ms :: "melinjo list" and position h :: rat
  assume "position < SCROLL_SPEED * GAME_DURATION * 60 + 800"
  then have "nat \<lceil>SCROLL_SPEED * GAME_DURATION * 60 + 800
                 - (position + 200 + Math_random rnd (i + 1) * 400)\<rceil>
             < nat \<lceil>SCROLL_SPEED * GAME_DURATION * 60 + 800 - position\<rceil>"
    using Math_random_range [of rnd "i + 1"]
    by (intro ceiling_gap_decreases) simp_all
  then show "((rnd, i + 2,
               ms @ [\<lparr>x = position, y = CANVAS_HEIGHT - GROUND_HEIGHT - h, width = 20,
                       height = 20, collected = False\<rparr>],
               position + 200 + Math_random rnd (i + 1) * 400),
              (rnd, i, ms, position))
             \<in> measure (\<lambda>(rnd, i, ms, position).
                          nat \<lceil>SCROLL_SPEED * GAME_DURATION * 60 + 800 - position\<rceil>)"
    by simp
qed

declare generateMelinjos_loop_p0.simps [simp del]

definition generateMelinjos_p0 :: "(nat \<Rightarrow> draw) \<Rightarrow> nat \<Rightarrow> melinjo list \<times> nat" where
  "generateMelinjos_p0 rnd i = generateMelinjos_loop_p0 rnd i [] 800"

definition onload_p0 :: "(nat \<Rightarrow> draw) \<Rightarrow> game" where
  "onload_p0 rnd =
     (let p = \<lparr>x = 100, y = CANVAS_HEIGHT - GROUND_HEIGHT - 40, width = 50, height = 40,
               velocityY = 0, isJumping = False, jumpCount = 0\<rparr>;
          (obs, i) = generateObstacles_p0 rnd 0;
          (ms, j) = generateMelinjos_p0 rnd i
      in \<lparr>player = p, obstacles = obs, melinjos = ms, gameTime = 0, gameActive = True,
           lastTimestamp = 0, energy = ENERGY_MAX\<rparr>)"

text \<open>The \<open>keydown\<close> listener of \<open>setupControls\<close>, with the jump code in its body.\<close>

definition keydown_p0 :: "string \<Rightarrow> game \<Rightarrow> game option" where
  "keydown_p0 code s =
     (if code = ''Space'' \<and> gameActive s then
        (if \<not> isJumping (player s) then
           (if energy s \<ge> ENERGY_JUMP_COST then
              Some (s\<lparr>player := (player s)\<lparr>velocityY := JUMP_FORCE, isJumping := True,
                                            jumpCount := 1\<rparr>,
                      energy := energy s - ENERGY_JUMP_COST\<rparr>)
            else Some s)
         else
           (if energy s \<ge> ENERGY_JUMP_COST then
              (if jumpCount (player s) = 0 then None
               else
                 Some (s\<lparr>player := (player s)
                            \<lparr>velocityY := JUMP_FORCE * FLYING_FORCE_MULTIPLIER
                                           / of_nat (jumpCount (player s)),
                             jumpCount := jumpCount (player s) + 1\<rparr>,
                         energy := energy s - ENERGY_JUMP_COST\<rparr>))
            else Some s))
      else Some s)"

definition updatePlayer_p0 :: "game \<Rightarrow> game" where
  "updatePlayer_p0 s =
     (let v = velocityY (player s) + GRAVITY;
          y' = y (player s) + v;
          groundY = CANVAS_HEIGHT - GROUND_HEIGHT - height (player s)
      in if y' \<ge> groundY then
           s\<lparr>player := (player s)\<lparr>y := groundY, velocityY := 0, isJumping := False,
                                   jumpCount := 0\<rparr>\<rparr>
         else s\<lparr>player := (player s)\<lparr>y := y', velocityY := v\<rparr>\<rparr>)"

definition updateObstacles_p0 :: "game \<Rightarrow> game" where
  "updateObstacles_p0 s =
     s\<lparr>obstacles := map (\<lambda>ob. ob\<lparr>x := x ob - SCROLL_SPEED\<rparr>) (obstacles s)\<rparr>"

definition updateMelinjos_p0 :: "game \<Rightarrow> game" where
  "updateMelinjos_p0 s =
     s\<lparr>melinjos := map (\<lambda>m. m\<lparr>x := x m - SCROLL_SPEED\<rparr>) (melinjos s)\<rparr>"

definition updateEnergy_p0 :: "game \<Rightarrow> game" where
  "updateEnergy_p0 s =
     (if energy s < ENERGY_MAX then
        (if energy s + ENERGY_REFILL_RATE > ENERGY_MAX then s\<lparr>energy := ENERGY_MAX\<rparr>
         else s\<lparr>energy := energy s + ENERGY_REFILL_RATE\<rparr>)
      else s)"

fun checkObstacles_p0 :: "player \<Rightarrow> obstacle list \<Rightarrow> obstacle list \<times> bool" where
  "checkObstacles_p0 p [] = ([], False)"
| "checkObstacles_p0 p (ob # obs) =
     (if \<not> passed ob \<and> x p < x ob + width ob \<and> x p + width p > x ob \<and>
         y p < y ob + height ob \<and> y p + height p > y ob
      then (ob # obs, True)
      else
        (case checkObstacles_p0 p obs of
           (obs', hit) \<Rightarrow>
             ((if x ob + width ob < x p \<and> \<not> passed ob then ob\<lparr>passed := True\<rparr> else ob)
                # obs', hit)))"

fun checkMelinjos_p0 :: "player \<Rightarrow> melinjo list \<Rightarrow> rat \<Rightarrow> melinjo list \<times> rat" where
  "checkMelinjos_p0 p [] e = ([], e)"
| "checkMelinjos_p0 p (m # ms) e =
     (if \<not> collected m \<and> x p < x m + width m \<and> x p + width p > x m \<and>
         y p < y m + height m \<and> y p + height p > y m
      then
        (case checkMelinjos_p0 p ms (if e + 30 > ENERGY_MAX then ENERGY_MAX else e + 30) of
           (ms', e') \<Rightarrow> (m\<lparr>collected := True\<rparr> # ms', e'))
      else
        (case checkMelinjos_p0 p ms e of (ms', e') \<Rightarrow> (m # ms', e')))"

definition checkCollisions_p0 :: "game \<Rightarrow> game" where
  "checkCollisions_p0 s =
     (case checkObstacles_p0 (player s) (obstacles s) of
        (obs', hit) \<Rightarrow>
          if hit then s\<lparr>obstacles := obs', gameActive := False\<rparr>
          else
            (case checkMelinjos_p0 (player s) (melinjos s) (energy s) of
               (ms', e') \<Rightarrow>
                 if y (player s) > CANVAS_HEIGHT
                 then s\<lparr>obstacles := obs', melinjos := ms', energy := e', gameActive := False\<rparr>
                 else s\<lparr>obstacles := obs', melinjos := ms', energy := e'\<rparr>))"

definition drawGameOver_p0 :: "game \<Rightarrow> banner" where
  "drawGameOver_p0 s = (if gameTime s \<ge> GAME_DURATION then LevelComplete else GameOver)"

definition gameLoop_p0 :: "rat \<Rightarrow> game \<Rightarrow> game \<times> banner option" where
  "gameLoop_p0 timestamp s =
     (let deltaTime = timestamp - lastTimestamp s;
          s1 = s\<lparr>lastTimestamp := timestamp\<rparr>;
          s2 = (if gameActive s1 then
                  (let s3 = s1\<lparr>gameTime := gameTime s1 + deltaTime / 1000\<rparr>;
                       s4 = (if gameTime s3 \<ge> GAME_DURATION then s3\<lparr>gameActive := False\<rparr>
                             else s3)
                   in checkCollisions_p0
                        (updateEnergy_p0 (updateMelinjos_p0 (updateObstacles_p0
                           (updatePlayer_p0 s4)))))
                else s1)
      in (s2, if \<not> gameActive s2 then Some (drawGameOver_p0 s2) else None))"

section \<open>A sample state\<close>

text \<open>
  A state in the middle of a run, ten milliseconds of game time before the time limit: the
  player stands on the ground, inside the bounding box of an obstacle and of a pickup.
\<close>

definition sampleState :: game where
  "sampleState =
     \<lparr>player = initialPlayer,
      obstacles = [\<lparr>x = 120, y = 330, width = 30, height = 20, type = 0, passed = False\<rparr>],
      melinjos = [\<lparr>x = 110, y = 320, width = 20, height = 20, collected = False\<rparr>],
      gameTime = 2999 / 100, gameActive = True, lastTimestamp = 1000, energy = 90\<rparr>"

text \<open>The same run a moment after a first jump: the player is in the air.\<close>

definition sampleAirborne :: game where
  "sampleAirborne =
     sampleState\<lparr>player := initialPlayer\<lparr>y := 200, velocityY := - 15, isJumping := True,
                                           jumpCount := 1\<rparr>,
                 gameTime := 10, energy := 50\<rparr>"

section \<open>Energy stays within its bounds\<close>

lemma onload_energy: "energy (onload rnd) = ENERGY_MAX"
  by (simp add: onload_def split_beta)

lemma onload_player: "player (onload rnd) = initialPlayer"
  by (simp add: onload_def split_beta)

lemma onload_clock:
  "gameTime (onload rnd) = 0 \<and> lastTimestamp (onload rnd) = 0 \<and> gameActive (onload rnd)"
  by (simp add: onload_def split_beta)

lemma updateEnergy_energy:
  "energy (updateEnergy s) =
     (if energy s < ENERGY_MAX then min (energy s + ENERGY_REFILL_RATE) ENERGY_MAX else energy s)"
  by (simp add: updateEnergy_def Let_def min_def)

lemma updateEnergy_range:
  assumes "0 \<le> energy s" and "energy s \<le> ENERGY_MAX"
  shows "0 \<le> energy (updateEnergy s) \<and> energy (updateEnergy s) \<le> ENERGY_MAX"
  using assms by (simp add: updateEnergy_energy game_constants)

lemma handleJump_energy:
  assumes "handleJump s = Some s'"
  shows "energy s' = (if energy s \<ge> ENERGY_JUMP_COST then energy s - ENERGY_JUMP_COST else energy s)"
  using assms by (auto simp add: handleJump_def Let_def split: if_splits)

lemma handleJump_range:
  assumes "handleJump s = Some s'" and "0 \<le> energy s" and "energy s \<le> ENERGY_MAX"
  shows "0 \<le> energy s' \<and> energy s' \<le> ENERGY_MAX"
  using assms(2,3) handleJump_energy [OF assms(1)] by (simp add: game_constants)

lemma checkMelinjos_step:
  "snd (checkMelinjos p (m # ms) e) =
     snd (checkMelinjos p ms
       (if \<not> collected m \<and> overlaps p m then min (e + 30) ENERGY_MAX else e))"
  by (simp add: Let_def split_beta min_def)

lemma checkMelinjos_range:
  "0 \<le> e \<Longrightarrow> e \<le> ENERGY_MAX \<Longrightarrow>
     0 \<le> snd (checkMelinjos p ms e) \<and> snd (checkMelinjos p ms e) \<le> ENERGY_MAX"
proof (induction ms arbitrary: e)
  case Nil
  then show ?case by simp
next
  case (Cons m ms)
  let ?e = "if \<not> collected m \<and> overlaps p m then min (e + 30) ENERGY_MAX else e"
  have "0 \<le> ?e" and "?e \<le> ENERGY_MAX"
    using Cons.prems by (simp_all add: game_constants)
  then show ?case
    unfolding checkMelinjos_step by (rule Cons.IH)
qed

lemma checkCollisions_energy:
  "energy (checkCollisions s) =
     (if snd (checkObstacles (player s) (obstacles s)) then energy s
      else snd (checkMelinjos (player s) (melinjos s) (energy s)))"
  by (simp add: checkCollisions_def Let_def split_beta)

lemma checkCollisions_range:
  assumes "0 \<le> energy s" and "energy s \<le> ENERGY_MAX"
  shows "0 \<le> energy (checkCollisions s) \<and> energy (checkCollisions s) \<le> ENERGY_MAX"
  using assms checkMelinjos_range [OF assms, of "player s" "melinjos s"]
  by (simp add: checkCollisions_energy)

lemma updatePlayer_energy: "energy (updatePlayer s) = energy s"
  by (simp add: updatePlayer_def Let_def)

lemma updateObstacles_energy: "energy (updateObstacles s) = energy s"
  by (simp add: updateObstacles_def)

lemma updateMelinjos_energy: "energy (updateMelinjos s) = energy s"
  by (simp add: updateMelinjos_def)

lemma advanceClock_energy: "energy (advanceClock d s) = energy s"
  by (simp add: advanceClock_def Let_def)

lemma updateAndCheck_range:
  assumes "0 \<le> energy s" and "energy s \<le> ENERGY_MAX"
  shows "0 \<le> energy (updateAndCheck s) \<and> energy (updateAndCheck s) \<le> ENERGY_MAX"
proof -
  let ?s = "updateMelinjos (updateObstacles (updatePlayer s))"
  have "energy ?s = energy s"
    by (simp add: updateMelinjos_energy updateObstacles_energy updatePlayer_energy)
  then have "0 \<le> energy (updateEnergy ?s) \<and> energy (updateEnergy ?s) \<le> ENERGY_MAX"
    using assms by (intro updateEnergy_range) simp_all
  then show ?thesis
    unfolding updateAndCheck_def by (intro checkCollisions_range) simp_all
qed

lemma gameLoop_range:
  assumes "0 \<le> energy s" and "energy s \<le> ENERGY_MAX"
  shows "0 \<le> energy (fst (gameLoop t s)) \<and> energy (fst (gameLoop t s)) \<le> ENERGY_MAX"
proof (cases "gameActive s")
  case True
  let ?s = "advanceClock (t - lastTimestamp s) (s\<lparr>lastTimestamp := t\<rparr>)"
  have "energy ?s = energy s"
    by (simp add: advanceClock_energy)
  then have "0 \<le> energy (updateAndCheck ?s) \<and> energy (updateAndCheck ?s) \<le> ENERGY_MAX"
    using assms by (intro updateAndCheck_range) simp_all
  with True show ?thesis
    by (simp add: gameLoop_def Let_def)
next
  case False
  with assms show ?thesis
    by (simp add: gameLoop_def Let_def)
qed

lemma step_range:
  assumes "step e s = Some s'" and "0 \<le> energy s" and "energy s \<le> ENERGY_MAX"
  shows "0 \<le> energy s' \<and> energy s' \<le> ENERGY_MAX"
proof (cases e)
  case (Frame t)
  with assms(1) have "s' = fst (gameLoop t s)" by simp
  then show ?thesis using gameLoop_range [OF assms(2,3)] by simp
next
  case (Keydown code)
  with assms(1) have "handleJump s = Some s' \<or> s' = s"
    by (auto simp add: keydown_def split: if_splits)
  then show ?thesis using handleJump_range assms(2,3) by blast
next
  case CanvasTouchstart
  with assms(1) have "handleJump s = Some s' \<or> s' = s"
    by (auto simp add: canvasTouchstart_def split: if_splits)
  then show ?thesis using handleJump_range assms(2,3) by blast
next
  case JumpButtonTouchstart
  with assms(1) have "handleJump s = Some s' \<or> s' = s"
    by (auto simp add: jumpButtonTouchstart_def split: if_splits)
  then show ?thesis using handleJump_range assms(2,3) by blast
qed

lemma reachable_range:
  "reachable s \<Longrightarrow> 0 \<le> energy s \<and> energy s \<le> ENERGY_MAX"
proof (induction rule: reachable.induct)
  case (start rnd)
  show ?case by (simp add: onload_energy game_constants)
next
  case (next_event s e s')
  then show ?case using step_range by blast
qed

text \<open>
  Claim C1. In every reachable state the energy lies between 0 and \<open>ENERGY_MAX\<close>, and
  each operation that touches the energy keeps it there: the per-frame refill adds
  \<open>ENERGY_REFILL_RATE\<close> and clamps to the maximum, a jump or flying impulse subtracts
  \<open>ENERGY_JUMP_COST\<close> only when the energy is at least that cost, and collecting a pickup
  adds 30 and clamps to the maximum.
\<close>

theorem energy_bounds:
  "(reachable s \<longrightarrow> 0 \<le> energy s \<and> energy s \<le> ENERGY_MAX) \<and>
   (0 \<le> energy s \<and> energy s \<le> ENERGY_MAX \<longrightarrow>
      energy (updateEnergy s) =
        (if energy s < ENERGY_MAX then min (energy s + ENERGY_REFILL_RATE) ENERGY_MAX
         else energy s) \<and>
      0 \<le> energy (updateEnergy s) \<and> energy (updateEnergy s) \<le> ENERGY_MAX \<and>
      (\<forall>s'. handleJump s = Some s' \<longrightarrow>
         energy s' = (if energy s \<ge> ENERGY_JUMP_COST then energy s - ENERGY_JUMP_COST
                      else energy s) \<and>
         0 \<le> energy s' \<and> energy s' \<le> ENERGY_MAX) \<and>
      (\<forall>p m ms. snd (checkMelinjos p (m # ms) (energy s)) =
         snd (checkMelinjos p ms
           (if \<not> collected m \<and> overlaps p m then min (energy s + 30) ENERGY_MAX
            else energy s))) \<and>
      0 \<le> energy (checkCollisions s) \<and> energy (checkCollisions s) \<le> ENERGY_MAX \<and>
      (\<forall>t. 0 \<le> energy (fst (gameLoop t s)) \<and> energy (fst (gameLoop t s)) \<le> ENERGY_MAX))"
  using reachable_range [of s] updateEnergy_energy [of s] updateEnergy_range [of s]
    handleJump_energy [of s] handleJump_range [of s] checkMelinjos_step
    checkCollisions_range [of s] gameLoop_range [of s]
  by blast

theorem energy_bounds_witness:
  "reachable (onload (\<lambda>_. draw_zero)) \<and> energy (onload (\<lambda>_. draw_zero)) = 100 \<and>
   energy (updateEnergy sampleState) = 903 / 10 \<and>
   handleJump sampleState \<noteq> None \<and> energy (the (handleJump sampleState)) = 70 \<and>
   0 \<le> energy (checkCollisions sampleState) \<and> energy (checkCollisions sampleState) \<le> 100"
proof -
  have range: "0 \<le> energy sampleState \<and> energy sampleState \<le> ENERGY_MAX"
    by (simp add: sampleState_def game_constants)
  have jump: "handleJump sampleState =
      Some (sampleState\<lparr>player := initialPlayer\<lparr>velocityY := - 15, isJumping := True,
                                                jumpCount := 1\<rparr>, energy := 70\<rparr>)"
    by (simp add: handleJump_def sampleState_def initialPlayer_def game_constants)
  have start: "reachable (onload (\<lambda>_. draw_zero))"
    by (rule reachable.start)
  have "0 \<le> energy (onload (\<lambda>_. draw_zero)) \<and> energy (onload (\<lambda>_. draw_zero)) \<le> ENERGY_MAX"
    using energy_bounds [of "onload (\<lambda>_. draw_zero)"] start by blast
  have full: "energy (onload (\<lambda>_. draw_zero)) = 100"
    by (simp add: onload_energy game_constants)
  have "energy (updateEnergy sampleState) =
          (if energy sampleState < ENERGY_MAX
           then min (energy sampleState + ENERGY_REFILL_RATE) ENERGY_MAX
           else energy sampleState)"
    using energy_bounds [of sampleState] range by blast
  then have refill: "energy (updateEnergy sampleState) = 903 / 10"
    by (simp add: sampleState_def game_constants)
  have "energy (the (handleJump sampleState)) =
          (if energy sampleState \<ge> ENERGY_JUMP_COST then energy sampleState - ENERGY_JUMP_COST
           else energy sampleState)"
    using energy_bounds [of sampleState] range jump by (metis option.sel)
  then have debit: "energy (the (handleJump sampleState)) = 70"
    by (simp add: sampleState_def game_constants)
  have "0 \<le> energy (checkCollisions sampleState) \<and>
        energy (checkCollisions sampleState) \<le> ENERGY_MAX"
    using energy_bounds [of sampleState] range by blast
  then have coll: "0 \<le> energy (checkCollisions sampleState) \<and>
                   energy (checkCollisions sampleState) \<le> 100"
    by (simp add: game_constants)
  from start full refill debit coll jump show ?thesis
    by simp
qed

section \<open>The ground line\<close>

lemma updatePlayer_player:
  "player (updatePlayer s) =
     (if y (player s) + (velocityY (player s) + GRAVITY)
           \<ge> CANVAS_HEIGHT - GROUND_HEIGHT - height (player s)
      then (player s)\<lparr>y := CANVAS_HEIGHT - GROUND_HEIGHT - height (player s), velocityY := 0,
                       isJumping := False, jumpCount := 0\<rparr>
      else (player s)\<lparr>y := y (player s) + (velocityY (player s) + GRAVITY),
                       velocityY := velocityY (player s) + GRAVITY\<rparr>)"
  by (simp add: updatePlayer_def Let_def)

text \<open>
  Claim C4. After the per-frame physics update the player's \<open>y\<close> never exceeds the ground
  line \<open>CANVAS_HEIGHT - GROUND_HEIGHT - player.height\<close>; whenever the integrated position
  reaches or passes the ground line the update snaps \<open>y\<close> to the ground line, sets
  \<open>velocityY\<close> to 0, clears \<open>isJumping\<close> and resets \<open>jumpCount\<close> to 0.
\<close>

theorem updatePlayer_ground:
  "y (player (updatePlayer s)) \<le> CANVAS_HEIGHT - GROUND_HEIGHT - height (player (updatePlayer s)) \<and>
   height (player (updatePlayer s)) = height (player s) \<and>
   (y (player s) + (velocityY (player s) + GRAVITY)
      \<ge> CANVAS_HEIGHT - GROUND_HEIGHT - height (player s) \<longrightarrow>
    y (player (updatePlayer s)) = CANVAS_HEIGHT - GROUND_HEIGHT - height (player s) \<and>
    velocityY (player (updatePlayer s)) = 0 \<and>
    \<not> isJumping (player (updatePlayer s)) \<and>
    jumpCount (player (updatePlayer s)) = 0)"
  by (simp add: updatePlayer_player)

theorem updatePlayer_ground_witness:
  "y (player sampleState) + (velocityY (player sampleState) + GRAVITY) = 3106 / 10 \<and>
   y (player (updatePlayer sampleState)) = 310 \<and>
   velocityY (player (updatePlayer sampleState)) = 0 \<and>
   \<not> isJumping (player (updatePlayer sampleState)) \<and>
   jumpCount (player (updatePlayer sampleState)) = 0"
proof -
  have pos: "y (player sampleState) + (velocityY (player sampleState) + GRAVITY) = 3106 / 10"
    by (simp add: sampleState_def initialPlayer_def game_constants)
  have line: "CANVAS_HEIGHT - GROUND_HEIGHT - height (player sampleState) = 310"
    by (simp add: sampleState_def initialPlayer_def game_constants)
  have "y (player sampleState) + (velocityY (player sampleState) + GRAVITY)
          \<ge> CANVAS_HEIGHT - GROUND_HEIGHT - height (player sampleState)"
    unfolding pos line by simp
  with updatePlayer_ground [of sampleState]
  have "y (player (updatePlayer sampleState))
          = CANVAS_HEIGHT - GROUND_HEIGHT - height (player sampleState) \<and>
        velocityY (player (updatePlayer sampleState)) = 0 \<and>
        \<not> isJumping (player (updatePlayer sampleState)) \<and>
        jumpCount (player (updatePlayer sampleState)) = 0"
    by blast
  with pos line show ?thesis
    by simp
qed

section \<open>Jump requests\<close>

lemma handleJump_rejected:
  "energy s < ENERGY_JUMP_COST \<Longrightarrow> handleJump s = Some s"
  by (simp add: handleJump_def Let_def)

lemma handleJump_initial:
  assumes "ENERGY_JUMP_COST \<le> energy s" and "\<not> isJumping (player s)"
  shows "handleJump s =
           Some (s\<lparr>player := (player s)\<lparr>velocityY := JUMP_FORCE, isJumping := True,
                                         jumpCount := 1\<rparr>,
                   energy := energy s - ENERGY_JUMP_COST\<rparr>)"
  using assms by (simp add: handleJump_def Let_def)

lemma handleJump_flying:
  assumes "ENERGY_JUMP_COST \<le> energy s" and "isJumping (player s)"
    and "jumpCount (player s) \<noteq> 0"
  shows "handleJump s =
           Some (s\<lparr>player := (player s)
                      \<lparr>velocityY := JUMP_FORCE * FLYING_FORCE_MULTIPLIER
                                     / of_nat (jumpCount (player s)),
                       jumpCount := jumpCount (player s) + 1\<rparr>,
                   energy := energy s - ENERGY_JUMP_COST\<rparr>)"
  using assms by (simp add: handleJump_def Let_def)

lemma handleJump_undefined:
  "handleJump s = None \<longleftrightarrow>
     isJumping (player s) \<and> ENERGY_JUMP_COST \<le> energy s \<and> jumpCount (player s) = 0"
  by (simp add: handleJump_def Let_def)

lemma keydown_p0_handleJump:
  "keydown_p0 code s = (if code = ''Space'' \<and> gameActive s then handleJump s else Some s)"
  by (simp add: keydown_p0_def handleJump_def Let_def)

text \<open>
  Claim C5. A jump request with \<open>energy < ENERGY_JUMP_COST\<close> leaves the whole state
  unchanged; a jump request with \<open>energy \<ge> ENERGY_JUMP_COST\<close> changes the state: it sets
  the player's velocity, updates \<open>isJumping\<close> and \<open>jumpCount\<close>, and debits the energy by
  exactly \<open>ENERGY_JUMP_COST\<close>. The listeners of both variants pass a jump request of an
  active game to this code. (In the one state shape where the velocity would not be a
  finite number, flying with \<open>jumpCount = 0\<close>, the model has no result.)
\<close>

theorem jump_request_gate:
  "(energy s < ENERGY_JUMP_COST \<longrightarrow> handleJump s = Some s) \<and>
   (ENERGY_JUMP_COST \<le> energy s \<and> \<not> isJumping (player s) \<longrightarrow>
      (\<exists>s'. handleJump s = Some s' \<and> s' \<noteq> s \<and>
            velocityY (player s') = JUMP_FORCE \<and> isJumping (player s') \<and>
            jumpCount (player s') = 1 \<and> energy s' = energy s - ENERGY_JUMP_COST)) \<and>
   (ENERGY_JUMP_COST \<le> energy s \<and> isJumping (player s) \<and> jumpCount (player s) \<noteq> 0 \<longrightarrow>
      (\<exists>s'. handleJump s = Some s' \<and> s' \<noteq> s \<and>
            velocityY (player s') =
              JUMP_FORCE * FLYING_FORCE_MULTIPLIER / of_nat (jumpCount (player s)) \<and>
            isJumping (player s') \<and> jumpCount (player s') = jumpCount (player s) + 1 \<and>
            energy s' = energy s - ENERGY_JUMP_COST)) \<and>
   (ENERGY_JUMP_COST \<le> energy s \<and> isJumping (player s) \<and> jumpCount (player s) = 0 \<longrightarrow>
      handleJump s = None) \<and>
   (gameActive s \<longrightarrow>
      keydown ''Space'' s = handleJump s \<and> canvasTouchstart s = handleJump s \<and>
      jumpButtonTouchstart s = handleJump s \<and> keydown_p0 ''Space'' s = handleJump s)"
proof -
  have changed: "s\<lparr>player := p, energy := energy s - ENERGY_JUMP_COST\<rparr> \<noteq> s" for p
  proof
    assume "s\<lparr>player := p, energy := energy s - ENERGY_JUMP_COST\<rparr> = s"
    then have "energy (s\<lparr>player := p, energy := energy s - ENERGY_JUMP_COST\<rparr>) = energy s"
      by simp
    then show False
      by (simp add: ENERGY_JUMP_COST_def)
  qed
  have a: "energy s < ENERGY_JUMP_COST \<longrightarrow> handleJump s = Some s"
    by (simp add: handleJump_rejected)
  have b: "ENERGY_JUMP_COST \<le> energy s \<and> \<not> isJumping (player s) \<longrightarrow>
      (\<exists>s'. handleJump s = Some s' \<and> s' \<noteq> s \<and>
            velocityY (player s') = JUMP_FORCE \<and> isJumping (player s') \<and>
            jumpCount (player s') = 1 \<and> energy s' = energy s - ENERGY_JUMP_COST)"
    using changed by (simp add: handleJump_initial)
  have c: "ENERGY_JUMP_COST \<le> energy s \<and> isJumping (player s) \<and> jumpCount (player s) \<noteq> 0 \<longrightarrow>
      (\<exists>s'. handleJump s = Some s' \<and> s' \<noteq> s \<and>
            velocityY (player s') =
              JUMP_FORCE * FLYING_FORCE_MULTIPLIER / of_nat (jumpCount (player s)) \<and>
            isJumping (player s') \<and> jumpCount (player s') = jumpCount (player s) + 1 \<and>
            energy s' = energy s - ENERGY_JUMP_COST)"
    using changed by (simp add: handleJump_flying)
  have d: "ENERGY_JUMP_COST \<le> energy s \<and> isJumping (player s) \<and> jumpCount (player s) = 0 \<longrightarrow>
      handleJump s = None"
    by (simp add: handleJump_undefined)
  have e: "gameActive s \<longrightarrow>
      keydown ''Space'' s = handleJump s \<and> canvasTouchstart s = handleJump s \<and>
      jumpButtonTouchstart s = handleJump s \<and> keydown_p0 ''Space'' s = handleJump s"
    by (simp add: keydown_def canvasTouchstart_def jumpButtonTouchstart_def
        keydown_p0_handleJump)
  from a b c d e show ?thesis
    by blast
qed

theorem jump_request_gate_witness:
  "handleJump (sampleState\<lparr>energy := 19\<rparr>) = Some (sampleState\<lparr>energy := 19\<rparr>) \<and>
   energy (the (handleJump sampleState)) = 70 \<and>
   velocityY (player (the (handleJump sampleState))) = - 15 \<and>
   jumpCount (player (the (handleJump sampleState))) = 1 \<and>
   energy (the (handleJump sampleAirborne)) = 30 \<and>
   velocityY (player (the (handleJump sampleAirborne))) = - 15 / 2 \<and>
   jumpCount (player (the (handleJump sampleAirborne))) = 2 \<and>
   keydown_p0 ''Space'' sampleAirborne = handleJump sampleAirborne"
proof -
  have low: "energy (sampleState\<lparr>energy := 19\<rparr>) < ENERGY_JUMP_COST"
    by (simp add: game_constants)
  have ground: "ENERGY_JUMP_COST \<le> energy sampleState \<and> \<not> isJumping (player sampleState)"
    by (simp add: sampleState_def initialPlayer_def game_constants)
  have air: "ENERGY_JUMP_COST \<le> energy sampleAirborne \<and> isJumping (player sampleAirborne) \<and>
             jumpCount (player sampleAirborne) \<noteq> 0"
    by (simp add: sampleAirborne_def game_constants)
  have active: "gameActive sampleAirborne"
    by (simp add: sampleAirborne_def sampleState_def)
  have "handleJump (sampleState\<lparr>energy := 19\<rparr>) = Some (sampleState\<lparr>energy := 19\<rparr>)"
    using jump_request_gate [of "sampleState\<lparr>energy := 19\<rparr>"] low by blast
  moreover have "\<exists>s'. handleJump sampleState = Some s' \<and>
        velocityY (player s') = JUMP_FORCE \<and> jumpCount (player s') = 1 \<and>
        energy s' = energy sampleState - ENERGY_JUMP_COST"
    using jump_request_gate [of sampleState] ground by blast
  then have "energy (the (handleJump sampleState)) = 70 \<and>
             velocityY (player (the (handleJump sampleState))) = - 15 \<and>
             jumpCount (player (the (handleJump sampleState))) = 1"
    by (auto simp add: sampleState_def game_constants)
  moreover have "\<exists>s'. handleJump sampleAirborne = Some s' \<and>
        velocityY (player s') =
          JUMP_FORCE * FLYING_FORCE_MULTIPLIER / of_nat (jumpCount (player sampleAirborne)) \<and>
        jumpCount (player s') = jumpCount (player sampleAirborne) + 1 \<and>
        energy s' = energy sampleAirborne - ENERGY_JUMP_COST"
    using jump_request_gate [of sampleAirborne] air by blast
  then have "energy (the (handleJump sampleAirborne)) = 30 \<and>
             velocityY (player (the (handleJump sampleAirborne))) = - 15 / 2 \<and>
             jumpCount (player (the (handleJump sampleAirborne))) = 2"
    by (auto simp add: sampleAirborne_def game_constants)
  moreover have "keydown_p0 ''Space'' sampleAirborne = handleJump sampleAirborne"
    using jump_request_gate [of sampleAirborne] active by blast
  ultimately show ?thesis
    by blast
qed

section \<open>Flying impulses\<close>

lemma flying_magnitude:
  assumes "n \<noteq> 0"
  shows "\<bar>JUMP_FORCE * FLYING_FORCE_MULTIPLIER / of_nat n\<bar> = (15 / 2) / of_nat n"
  by (simp add: game_constants abs_divide)

lemma flying_magnitude_decreases:
  fixes m n :: nat
  assumes "m \<noteq> 0" and "m < n"
  shows "\<bar>JUMP_FORCE * FLYING_FORCE_MULTIPLIER / of_nat n\<bar>
           < \<bar>JUMP_FORCE * FLYING_FORCE_MULTIPLIER / (of_nat m :: rat)\<bar>"
proof -
  have "(0 :: rat) < of_nat m" and "(of_nat m :: rat) < of_nat n"
    using assms by simp_all
  then have "(15 / 2) / (of_nat n :: rat) < (15 / 2) / of_nat m"
    by (simp add: frac_less2)
  moreover have "n \<noteq> 0"
    using assms by simp
  then have "\<bar>JUMP_FORCE * FLYING_FORCE_MULTIPLIER / of_nat n\<bar> = (15 / 2) / of_nat n"
    by (rule flying_magnitude)
  moreover have "\<bar>JUMP_FORCE * FLYING_FORCE_MULTIPLIER / of_nat m\<bar> = (15 / 2) / of_nat m"
    using assms(1) by (rule flying_magnitude)
  ultimately show ?thesis
    by simp
qed

text \<open>
  Claim C6. Each accepted flying impulse (a jump request while \<open>isJumping\<close> is true) sets
  the velocity to \<open>JUMP_FORCE * 0.5 / jumpCount\<close> at the \<open>jumpCount\<close> before the increment,
  and the magnitudes of flying impulses decrease strictly as \<open>jumpCount\<close> grows
  (7.5/1, 7.5/2, 7.5/3, ...).
\<close>

theorem flying_impulse:
  "(isJumping (player s) \<and> ENERGY_JUMP_COST \<le> energy s \<and> jumpCount (player s) \<noteq> 0 \<longrightarrow>
      (\<exists>s'. handleJump s = Some s' \<and>
            velocityY (player s') = JUMP_FORCE * (1 / 2) / of_nat (jumpCount (player s)) \<and>
            \<bar>velocityY (player s')\<bar> = (15 / 2) / of_nat (jumpCount (player s)) \<and>
            jumpCount (player s') = jumpCount (player s) + 1)) \<and>
   (\<forall>t s' t'.
      isJumping (player s) \<and> ENERGY_JUMP_COST \<le> energy s \<and> handleJump s = Some s' \<and>
      isJumping (player t) \<and> ENERGY_JUMP_COST \<le> energy t \<and> handleJump t = Some t' \<and>
      jumpCount (player s) < jumpCount (player t) \<longrightarrow>
      \<bar>velocityY (player t')\<bar> < \<bar>velocityY (player s')\<bar>)"
proof (intro conjI allI impI)
  assume a: "isJumping (player s) \<and> ENERGY_JUMP_COST \<le> energy s \<and> jumpCount (player s) \<noteq> 0"
  then have "handleJump s =
      Some (s\<lparr>player := (player s)
                 \<lparr>velocityY := JUMP_FORCE * FLYING_FORCE_MULTIPLIER
                                / of_nat (jumpCount (player s)),
                  jumpCount := jumpCount (player s) + 1\<rparr>,
              energy := energy s - ENERGY_JUMP_COST\<rparr>)"
    by (simp add: handleJump_flying)
  moreover have "JUMP_FORCE * FLYING_FORCE_MULTIPLIER / (of_nat (jumpCount (player s)) :: rat)
                   = JUMP_FORCE * (1 / 2) / of_nat (jumpCount (player s))"
    by (simp add: FLYING_FORCE_MULTIPLIER_def)
  ultimately show "\<exists>s'. handleJump s = Some s' \<and>
            velocityY (player s') = JUMP_FORCE * (1 / 2) / of_nat (jumpCount (player s)) \<and>
            \<bar>velocityY (player s')\<bar> = (15 / 2) / of_nat (jumpCount (player s)) \<and>
            jumpCount (player s') = jumpCount (player s) + 1"
    using a flying_magnitude [of "jumpCount (player s)"] by simp
next
  fix t s' t'
  assume a: "isJumping (player s) \<and> ENERGY_JUMP_COST \<le> energy s \<and> handleJump s = Some s' \<and>
      isJumping (player t) \<and> ENERGY_JUMP_COST \<le> energy t \<and> handleJump t = Some t' \<and>
      jumpCount (player s) < jumpCount (player t)"
  have ns: "jumpCount (player s) \<noteq> 0"
    using a handleJump_undefined [of s] by auto
  have nt: "jumpCount (player t) \<noteq> 0"
    using a by simp
  have "velocityY (player s')
          = JUMP_FORCE * FLYING_FORCE_MULTIPLIER / of_nat (jumpCount (player s))"
    using a ns handleJump_flying [of s] by auto
  moreover have "velocityY (player t')
          = JUMP_FORCE * FLYING_FORCE_MULTIPLIER / of_nat (jumpCount (player t))"
    using a nt handleJump_flying [of t] by auto
  ultimately show "\<bar>velocityY (player t')\<bar> < \<bar>velocityY (player s')\<bar>"
    using flying_magnitude_decreases [OF ns] a by simp
qed

theorem flying_impulse_witness:
  "velocityY (player (the (handleJump sampleAirborne))) = - 15 / 2 \<and>
   handleJump (the (handleJump sampleAirborne)) \<noteq> None \<and>
   velocityY (player (the (handleJump (the (handleJump sampleAirborne))))) = - 15 / 4 \<and>
   \<bar>velocityY (player (the (handleJump (the (handleJump sampleAirborne)))))\<bar>
     < \<bar>velocityY (player (the (handleJump sampleAirborne)))\<bar>"
proof -
  define s1 where "s1 = sampleAirborne\<lparr>player := (player sampleAirborne)
        \<lparr>velocityY := - 15 / 2, jumpCount := 2\<rparr>, energy := 30\<rparr>"
  define s2 where "s2 = s1\<lparr>player := (player s1)\<lparr>velocityY := - 15 / 4, jumpCount := 3\<rparr>,
        energy := 10\<rparr>"
  have air: "isJumping (player sampleAirborne) \<and> ENERGY_JUMP_COST \<le> energy sampleAirborne \<and>
             jumpCount (player sampleAirborne) \<noteq> 0"
    by (simp add: sampleAirborne_def game_constants)
  have j1: "handleJump sampleAirborne = Some s1"
    by (simp add: handleJump_def sampleAirborne_def s1_def game_constants)
  have j2: "handleJump s1 = Some s2"
    by (simp add: handleJump_def sampleAirborne_def s1_def s2_def game_constants)
  have air1: "isJumping (player s1) \<and> ENERGY_JUMP_COST \<le> energy s1"
    by (simp add: s1_def sampleAirborne_def game_constants)
  have lt: "jumpCount (player sampleAirborne) < jumpCount (player s1)"
    by (simp add: s1_def sampleAirborne_def)
  have "\<exists>s'. handleJump sampleAirborne = Some s' \<and>
          velocityY (player s') = JUMP_FORCE * (1 / 2) / of_nat (jumpCount (player sampleAirborne))"
    using flying_impulse [of sampleAirborne] air by blast
  then have v1: "velocityY (player s1) = - 15 / 2"
    using j1 by (simp add: sampleAirborne_def game_constants)
  have "\<bar>velocityY (player s2)\<bar> < \<bar>velocityY (player s1)\<bar>"
    using flying_impulse [of sampleAirborne] air air1 j1 j2 lt by blast
  moreover have "velocityY (player s2) = - 15 / 4"
    by (simp add: s2_def)
  ultimately show ?thesis
    using j1 j2 v1 by simp
qed

section \<open>The divisor of the flying impulse\<close>

lemma updateObstacles_player: "player (updateObstacles s) = player s"
  by (simp add: updateObstacles_def)

lemma updateMelinjos_player: "player (updateMelinjos s) = player s"
  by (simp add: updateMelinjos_def)

lemma updateEnergy_player: "player (updateEnergy s) = player s"
  by (simp add: updateEnergy_def Let_def)

lemma checkCollisions_player: "player (checkCollisions s) = player s"
  by (simp add: checkCollisions_def Let_def split_beta)

lemma advanceClock_player: "player (advanceClock d s) = player s"
  by (simp add: advanceClock_def Let_def)

lemma updateAndCheck_player: "player (updateAndCheck s) = player (updatePlayer s)"
  by (simp add: updateAndCheck_def checkCollisions_player updateEnergy_player
      updateMelinjos_player updateObstacles_player)

lemma gameLoop_player:
  "player (fst (gameLoop t s)) =
     (if gameActive s
      then player (updatePlayer (advanceClock (t - lastTimestamp s) (s\<lparr>lastTimestamp := t\<rparr>)))
      else player s)"
  by (simp add: gameLoop_def Let_def updateAndCheck_player)

lemma updatePlayer_divisor:
  assumes "isJumping (player s) \<longrightarrow> 1 \<le> jumpCount (player s)"
  shows "isJumping (player (updatePlayer s)) \<longrightarrow> 1 \<le> jumpCount (player (updatePlayer s))"
  using assms by (simp add: updatePlayer_player)

lemma updatePlayer_divisor_eq:
  assumes "player s = player s'"
    and "isJumping (player s') \<longrightarrow> 1 \<le> jumpCount (player s')"
  shows "isJumping (player (updatePlayer s)) \<longrightarrow> 1 \<le> jumpCount (player (updatePlayer s))"
  using assms by (simp add: updatePlayer_player)

lemma handleJump_divisor:
  assumes "handleJump s = Some s'"
    and "isJumping (player s) \<longrightarrow> 1 \<le> jumpCount (player s)"
  shows "isJumping (player s') \<longrightarrow> 1 \<le> jumpCount (player s')"
  using assms by (auto simp add: handleJump_def Let_def split: if_splits)

lemma gameLoop_divisor:
  assumes "isJumping (player s) \<longrightarrow> 1 \<le> jumpCount (player s)"
  shows "isJumping (player (fst (gameLoop t s)))
           \<longrightarrow> 1 \<le> jumpCount (player (fst (gameLoop t s)))"
proof (cases "gameActive s")
  case True
  let ?s = "advanceClock (t - lastTimestamp s) (s\<lparr>lastTimestamp := t\<rparr>)"
  have "player ?s = player s"
    by (simp add: advanceClock_player)
  then have "isJumping (player (updatePlayer ?s)) \<longrightarrow> 1 \<le> jumpCount (player (updatePlayer ?s))"
    using assms by (rule updatePlayer_divisor_eq)
  with True show ?thesis
    by (simp add: gameLoop_player)
next
  case False
  with assms show ?thesis
    by (simp add: gameLoop_player)
qed

lemma step_cases:
  "step e s = Some (fst (gameLoop (case e of Frame t \<Rightarrow> t | _ \<Rightarrow> 0) s))
     \<or> step e s = handleJump s \<or> step e s = Some s"
  by (cases e) (simp_all add: keydown_def canvasTouchstart_def jumpButtonTouchstart_def)

lemma step_divisor:
  assumes "step e s = Some s'"
    and "isJumping (player s) \<longrightarrow> 1 \<le> jumpCount (player s)"
  shows "isJumping (player s') \<longrightarrow> 1 \<le> jumpCount (player s')"
  using step_cases [of e s] assms gameLoop_divisor [OF assms(2)] handleJump_divisor [of s s']
  by auto

lemma reachable_divisor:
  "reachable s \<Longrightarrow> isJumping (player s) \<longrightarrow> 1 \<le> jumpCount (player s)"
proof (induction rule: reachable.induct)
  case (start rnd)
  show ?case
    by (simp add: onload_player initialPlayer_def)
next
  case (next_event s e s')
  then show ?case
    using step_divisor by blast
qed

lemma step_defined:
  assumes "isJumping (player s) \<longrightarrow> 1 \<le> jumpCount (player s)"
  shows "step e s \<noteq> None"
proof -
  have "handleJump s \<noteq> None"
    using assms by (auto simp add: handleJump_undefined)
  then show ?thesis
    using step_cases [of e s] by auto
qed

lemma run_defined:
  "reachable s \<Longrightarrow> \<exists>s'. run es s = Some s' \<and> reachable s'"
proof (induction es arbitrary: s)
  case Nil
  then show ?case by simp
next
  case (Cons e es)
  from Cons.prems obtain s1 where s1: "step e s = Some s1"
    using step_defined [OF reachable_divisor, of s e] by auto
  with Cons.prems have "reachable s1"
    by (rule reachable.next_event)
  then obtain s' where "run es s1 = Some s'" and "reachable s'"
    using Cons.IH by blast
  with s1 show ?case by simp
qed

text \<open>
  Claim C7. The division \<open>JUMP_FORCE * FLYING_FORCE_MULTIPLIER / jumpCount\<close> never divides
  by zero: in every reachable state \<open>isJumping\<close> implies \<open>jumpCount \<ge> 1\<close>, so every jump
  request and every run of events has a result. The invariant is established by the
  initial jump and preserved by every operation; landing resets both fields.
\<close>

theorem flying_divisor_positive:
  "(reachable s \<longrightarrow>
      (isJumping (player s) \<longrightarrow> 1 \<le> jumpCount (player s)) \<and>
      handleJump s \<noteq> None \<and> (\<forall>e. step e s \<noteq> None) \<and> (\<forall>es. run es s \<noteq> None)) \<and>
   ((isJumping (player s) \<longrightarrow> 1 \<le> jumpCount (player s)) \<longrightarrow>
      (\<exists>s'. handleJump s = Some s' \<and>
            (isJumping (player s') \<longrightarrow> 1 \<le> jumpCount (player s'))) \<and>
      (isJumping (player (updatePlayer s)) \<longrightarrow> 1 \<le> jumpCount (player (updatePlayer s))) \<and>
      (\<forall>t. isJumping (player (fst (gameLoop t s)))
              \<longrightarrow> 1 \<le> jumpCount (player (fst (gameLoop t s)))))"
proof (intro conjI impI allI)
  assume r: "reachable s"
  then have inv: "isJumping (player s) \<longrightarrow> 1 \<le> jumpCount (player s)"
    by (rule reachable_divisor)
  show "1 \<le> jumpCount (player s)" if "isJumping (player s)"
    using inv that by simp
  show "handleJump s \<noteq> None"
    using inv by (auto simp add: handleJump_undefined)
  show "step e s \<noteq> None" for e
    using inv by (rule step_defined)
  show "run es s \<noteq> None" for es
    using run_defined [OF r, of es] by auto
next
  assume inv: "isJumping (player s) \<longrightarrow> 1 \<le> jumpCount (player s)"
  then have "handleJump s \<noteq> None"
    by (auto simp add: handleJump_undefined)
  then obtain s' where s': "handleJump s = Some s'"
    by auto
  then show "\<exists>s'. handleJump s = Some s' \<and>
            (isJumping (player s') \<longrightarrow> 1 \<le> jumpCount (player s'))"
    using handleJump_divisor [OF s' inv] by simp
  show "1 \<le> jumpCount (player (updatePlayer s))" if "isJumping (player (updatePlayer s))"
    using updatePlayer_divisor [OF inv] that by simp
  show "1 \<le> jumpCount (player (fst (gameLoop t s)))"
    if "isJumping (player (fst (gameLoop t s)))" for t
    using gameLoop_divisor [OF inv, of t] that by simp
qed

theorem flying_divisor_positive_witness:
  "reachable (the (step (Keydown ''Space'') (onload (\<lambda>_. draw_zero)))) \<and>
   isJumping (player (the (step (Keydown ''Space'') (onload (\<lambda>_. draw_zero))))) \<and>
   1 \<le> jumpCount (player (the (step (Keydown ''Space'') (onload (\<lambda>_. draw_zero))))) \<and>
   handleJump (the (step (Keydown ''Space'') (onload (\<lambda>_. draw_zero)))) \<noteq> None \<and>
   run [Keydown ''Space'', Frame 16, CanvasTouchstart, Frame 32]
     (the (step (Keydown ''Space'') (onload (\<lambda>_. draw_zero)))) \<noteq> None"
proof -
  let ?s0 = "onload (\<lambda>_. draw_zero)"
  define s1 where "s1 = ?s0\<lparr>player := initialPlayer\<lparr>velocityY := JUMP_FORCE, isJumping := True,
                                                      jumpCount := 1\<rparr>,
                           energy := ENERGY_MAX - ENERGY_JUMP_COST\<rparr>"
  have "handleJump ?s0 = Some s1"
    by (simp add: handleJump_def Let_def onload_player onload_energy s1_def
        initialPlayer_def game_constants)
  then have st: "step (Keydown ''Space'') ?s0 = Some s1"
    by (simp add: keydown_def onload_clock)
  have "reachable ?s0"
    by (rule reachable.start)
  then have r: "reachable s1"
    using st by (rule reachable.next_event)
  have j: "isJumping (player s1)"
    by (simp add: s1_def)
  have e: "the (step (Keydown ''Space'') ?s0) = s1"
    using st by simp
  from flying_divisor_positive [of s1] r
  have "(isJumping (player s1) \<longrightarrow> 1 \<le> jumpCount (player s1)) \<and> handleJump s1 \<noteq> None \<and>
        run [Keydown ''Space'', Frame 16, CanvasTouchstart, Frame 32] s1 \<noteq> None"
    by blast
  with r j show ?thesis
    unfolding e by blast
qed

section \<open>The clock and the end of the game\<close>

lemma updatePlayer_clock:
  "gameTime (updatePlayer s) = gameTime s \<and> gameActive (updatePlayer s) = gameActive s"
  by (simp add: updatePlayer_def Let_def)

lemma updateObstacles_clock:
  "gameTime (updateObstacles s) = gameTime s \<and> gameActive (updateObstacles s) = gameActive s"
  by (simp add: updateObstacles_def)

lemma updateMelinjos_clock:
  "gameTime (updateMelinjos s) = gameTime s \<and> gameActive (updateMelinjos s) = gameActive s"
  by (simp add: updateMelinjos_def)

lemma updateEnergy_clock:
  "gameTime (updateEnergy s) = gameTime s \<and> gameActive (updateEnergy s) = gameActive s"
  by (simp add: updateEnergy_def Let_def)

lemma checkCollisions_clock:
  "gameTime (checkCollisions s) = gameTime s \<and>
   (\<not> gameActive s \<longrightarrow> \<not> gameActive (checkCollisions s))"
  by (simp add: checkCollisions_def Let_def split_beta)

lemma updateAndCheck_clock:
  "gameTime (updateAndCheck s) = gameTime s \<and>
   (\<not> gameActive s \<longrightarrow> \<not> gameActive (updateAndCheck s))"
  by (simp add: updateAndCheck_def checkCollisions_clock updateEnergy_clock
      updateMelinjos_clock updateObstacles_clock updatePlayer_clock)

lemma advanceClock_clock:
  "gameTime (advanceClock d s) = gameTime s + d / 1000 \<and>
   (gameTime s + d / 1000 \<ge> GAME_DURATION \<longrightarrow> \<not> gameActive (advanceClock d s))"
  by (simp add: advanceClock_def Let_def)

lemma gameLoop_active:
  "gameActive s \<Longrightarrow>
     fst (gameLoop t s) =
       updateAndCheck (advanceClock (t - lastTimestamp s) (s\<lparr>lastTimestamp := t\<rparr>))"
  by (simp add: gameLoop_def Let_def)

lemma gameLoop_ended:
  "\<not> gameActive s \<Longrightarrow>
     gameLoop t s = (s\<lparr>lastTimestamp := t\<rparr>, Some (drawGameOver (s\<lparr>lastTimestamp := t\<rparr>)))"
  by (simp add: gameLoop_def Let_def)

lemma gameLoop_overlay:
  "snd (gameLoop t s) =
     (if gameActive (fst (gameLoop t s)) then None
      else Some (if gameTime (fst (gameLoop t s)) \<ge> GAME_DURATION then LevelComplete
                 else GameOver))"
  by (simp add: gameLoop_def Let_def drawGameOver_def)

lemma gameLoop_time_up:
  assumes "gameActive s" and "gameTime s + (t - lastTimestamp s) / 1000 \<ge> GAME_DURATION"
  shows "\<not> gameActive (fst (gameLoop t s)) \<and>
         gameTime (fst (gameLoop t s)) = gameTime s + (t - lastTimestamp s) / 1000 \<and>
         snd (gameLoop t s) = Some LevelComplete"
proof -
  let ?c = "advanceClock (t - lastTimestamp s) (s\<lparr>lastTimestamp := t\<rparr>)"
  have c: "gameTime ?c = gameTime s + (t - lastTimestamp s) / 1000" and "\<not> gameActive ?c"
    using assms(2) advanceClock_clock [of "t - lastTimestamp s" "s\<lparr>lastTimestamp := t\<rparr>"]
    by simp_all
  then have "gameTime (updateAndCheck ?c) = gameTime s + (t - lastTimestamp s) / 1000"
    and "\<not> gameActive (updateAndCheck ?c)"
    using updateAndCheck_clock [of ?c] by simp_all
  then have "\<not> gameActive (fst (gameLoop t s))"
    and "gameTime (fst (gameLoop t s)) = gameTime s + (t - lastTimestamp s) / 1000"
    using assms(1) by (simp_all add: gameLoop_active)
  then show ?thesis
    using assms(2) by (simp add: gameLoop_overlay)
qed

text \<open>
  Claim C3. If in one frame the elapsed game time reaches \<open>GAME_DURATION\<close> and an obstacle
  collision (or the fall-off condition) also holds, the end state is shown with the win
  framing: which message the overlay shows depends only on whether
  \<open>gameTime \<ge> GAME_DURATION\<close>.
\<close>

theorem time_up_wins:
  "(gameActive s \<and> gameTime s + (t - lastTimestamp s) / 1000 \<ge> GAME_DURATION \<longrightarrow>
      \<not> gameActive (fst (gameLoop t s)) \<and> snd (gameLoop t s) = Some LevelComplete) \<and>
   snd (gameLoop t s) =
     (if gameActive (fst (gameLoop t s)) then None
      else Some (if gameTime (fst (gameLoop t s)) \<ge> GAME_DURATION then LevelComplete
                 else GameOver)) \<and>
   (drawGameOver s = LevelComplete \<longleftrightarrow> gameTime s \<ge> GAME_DURATION)"
  using gameLoop_time_up [of s t] gameLoop_overlay [of t s]
  by (simp add: drawGameOver_def)

theorem time_up_wins_witness:
  "gameActive sampleState \<and>
   gameTime sampleState + (1016 - lastTimestamp sampleState) / 1000 = 30006 / 1000 \<and>
   snd (checkObstacles
          (player (updatePlayer (advanceClock 16 (sampleState\<lparr>lastTimestamp := 1016\<rparr>))))
          (obstacles (updateObstacles (updatePlayer
             (advanceClock 16 (sampleState\<lparr>lastTimestamp := 1016\<rparr>)))))) \<and>
   \<not> gameActive (fst (gameLoop 1016 sampleState)) \<and>
   snd (gameLoop 1016 sampleState) = Some LevelComplete"
proof -
  have active: "gameActive sampleState"
    by (simp add: sampleState_def)
  have time: "gameTime sampleState + (1016 - lastTimestamp sampleState) / 1000 = 30006 / 1000"
    by (simp add: sampleState_def)
  have "gameTime sampleState + (1016 - lastTimestamp sampleState) / 1000 \<ge> GAME_DURATION"
    by (simp add: sampleState_def GAME_DURATION_def)
  with active time_up_wins [of sampleState 1016]
  have "\<not> gameActive (fst (gameLoop 1016 sampleState)) \<and>
        snd (gameLoop 1016 sampleState) = Some LevelComplete"
    by blast
  moreover have "snd (checkObstacles
          (player (updatePlayer (advanceClock 16 (sampleState\<lparr>lastTimestamp := 1016\<rparr>))))
          (obstacles (updateObstacles (updatePlayer
             (advanceClock 16 (sampleState\<lparr>lastTimestamp := 1016\<rparr>))))))"
    by (simp add: sampleState_def initialPlayer_def advanceClock_def updatePlayer_def
        updateObstacles_def overlaps_def Let_def game_constants)
  ultimately show ?thesis
    using active time by blast
qed

text \<open>
  Claim C10. On the first call of the frame loop the delta time is the raw timestamp,
  because \<open>lastTimestamp\<close> starts at 0; \<open>gameTime\<close> goes from 0 to \<open>timestamp / 1000\<close> in
  one step, and a first timestamp of 30000 ms or more ends the game with the win framing
  on the first frame, before any input.
\<close>

theorem first_frame_delta:
  "lastTimestamp (onload rnd) = 0 \<and> gameTime (onload rnd) = 0 \<and>
   t - lastTimestamp (onload rnd) = t \<and>
   gameTime (fst (gameLoop t (onload rnd))) = t / 1000 \<and>
   (t \<ge> 30000 \<longrightarrow>
      \<not> gameActive (fst (gameLoop t (onload rnd))) \<and>
      snd (gameLoop t (onload rnd)) = Some LevelComplete)"
proof -
  let ?s = "onload rnd"
  have init: "lastTimestamp ?s = 0" "gameTime ?s = 0" "gameActive ?s"
    by (simp_all add: onload_clock)
  have "gameTime (fst (gameLoop t ?s)) = t / 1000"
    using init
    by (simp add: gameLoop_active updateAndCheck_clock advanceClock_clock)
  moreover have "\<not> gameActive (fst (gameLoop t ?s)) \<and> snd (gameLoop t ?s) = Some LevelComplete"
    if "t \<ge> 30000"
  proof -
    have "gameTime ?s + (t - lastTimestamp ?s) / 1000 \<ge> GAME_DURATION"
      using that init by (simp add: GAME_DURATION_def)
    with init(3) show ?thesis
      using gameLoop_time_up [of ?s t] by simp
  qed
  ultimately show ?thesis
    using init by simp
qed

theorem first_frame_delta_witness:
  "(30000 :: rat) \<ge> 30000 \<and>
   gameTime (fst (gameLoop 30000 (onload (\<lambda>_. draw_zero)))) = 30 \<and>
   \<not> gameActive (fst (gameLoop 30000 (onload (\<lambda>_. draw_zero)))) \<and>
   snd (gameLoop 30000 (onload (\<lambda>_. draw_zero))) = Some LevelComplete"
  using first_frame_delta [of "\<lambda>_. draw_zero" 30000] by simp

section \<open>After the end of the game\<close>

lemma drawGameOver_lastTimestamp: "drawGameOver (s\<lparr>lastTimestamp := t\<rparr>) = drawGameOver s"
  by (simp add: drawGameOver_def)

lemma step_ended:
  assumes "\<not> gameActive s"
  shows "\<exists>t. step e s = Some (s\<lparr>lastTimestamp := t\<rparr>)"
proof (cases e)
  case (Frame t)
  then have "step e s = Some (s\<lparr>lastTimestamp := t\<rparr>)"
    using assms by (simp add: gameLoop_ended)
  then show ?thesis ..
next
  case (Keydown code)
  then have "step e s = Some (s\<lparr>lastTimestamp := lastTimestamp s\<rparr>)"
    using assms by (simp add: keydown_def)
  then show ?thesis ..
next
  case CanvasTouchstart
  then have "step e s = Some (s\<lparr>lastTimestamp := lastTimestamp s\<rparr>)"
    using assms by (simp add: canvasTouchstart_def)
  then show ?thesis ..
next
  case JumpButtonTouchstart
  then have "step e s = Some (s\<lparr>lastTimestamp := lastTimestamp s\<rparr>)"
    using assms by (simp add: jumpButtonTouchstart_def)
  then show ?thesis ..
qed

lemma run_ended:
  "\<not> gameActive s \<Longrightarrow> \<exists>t. run es s = Some (s\<lparr>lastTimestamp := t\<rparr>)"
proof (induction es arbitrary: s)
  case Nil
  have "run [] s = Some (s\<lparr>lastTimestamp := lastTimestamp s\<rparr>)"
    by simp
  then show ?case ..
next
  case (Cons e es)
  from step_ended [OF Cons.prems, of e] obtain t
    where t: "step e s = Some (s\<lparr>lastTimestamp := t\<rparr>)" ..
  have "\<not> gameActive (s\<lparr>lastTimestamp := t\<rparr>)"
    using Cons.prems by simp
  from Cons.IH [OF this] obtain t'
    where "run es (s\<lparr>lastTimestamp := t\<rparr>) = Some (s\<lparr>lastTimestamp := t, lastTimestamp := t'\<rparr>)" ..
  with t have "run (e # es) s = Some (s\<lparr>lastTimestamp := t'\<rparr>)"
    by simp
  then show ?case ..
qed

lemma checkCollisions_hit:
  "snd (checkObstacles (player s) (obstacles s)) \<Longrightarrow>
     checkCollisions s =
       s\<lparr>obstacles := fst (checkObstacles (player s) (obstacles s)), gameActive := False\<rparr>"
  by (simp add: checkCollisions_def split_beta)

lemma advanceClock_time_up:
  "gameTime s + d / 1000 \<ge> GAME_DURATION \<Longrightarrow>
     advanceClock d s = s\<lparr>gameTime := gameTime s + d / 1000, gameActive := False\<rparr>"
  by (simp add: advanceClock_def Let_def)

text \<open>
  Claim C2 as the specification states it: once \<open>gameActive\<close> is false no simulation field
  changes any more, the rest of the frame of the transition included. The frame below
  reaches the time limit in \<open>advanceClock\<close>; the five calls that follow still run, scroll
  the obstacle and the pickup by \<open>SCROLL_SPEED\<close> and refill the energy.
\<close>

theorem time_up_frame_still_updates:
  "gameActive sampleState \<and>
   \<not> gameActive (advanceClock 16 (sampleState\<lparr>lastTimestamp := 1016\<rparr>)) \<and>
   fst (gameLoop 1016 sampleState)
     = updateAndCheck (advanceClock 16 (sampleState\<lparr>lastTimestamp := 1016\<rparr>)) \<and>
   energy (advanceClock 16 (sampleState\<lparr>lastTimestamp := 1016\<rparr>)) = 90 \<and>
   energy (fst (gameLoop 1016 sampleState)) = 903 / 10 \<and>
   map x (obstacles (advanceClock 16 (sampleState\<lparr>lastTimestamp := 1016\<rparr>))) = [120] \<and>
   map x (obstacles (fst (gameLoop 1016 sampleState))) = [115] \<and>
   map x (melinjos (advanceClock 16 (sampleState\<lparr>lastTimestamp := 1016\<rparr>))) = [110] \<and>
   map x (melinjos (fst (gameLoop 1016 sampleState))) = [105]"
proof -
  let ?c = "advanceClock 16 (sampleState\<lparr>lastTimestamp := 1016\<rparr>)"
  have active: "gameActive sampleState"
    by (simp add: sampleState_def)
  have c: "?c = sampleState\<lparr>lastTimestamp := 1016, gameTime := 30006 / 1000,
                            gameActive := False\<rparr>"
    by (simp add: advanceClock_def sampleState_def Let_def GAME_DURATION_def)
  have loop: "fst (gameLoop 1016 sampleState) = updateAndCheck ?c"
    using gameLoop_active [OF active, of 1016] by (simp add: sampleState_def)
  have "updateAndCheck ?c =
      sampleState\<lparr>lastTimestamp := 1016, gameTime := 30006 / 1000, gameActive := False,
                  obstacles := [\<lparr>x = 115, y = 330, width = 30, height = 20, type = 0,
                                 passed = False\<rparr>],
                  melinjos := [\<lparr>x = 105, y = 320, width = 20, height = 20,
                                collected = False\<rparr>],
                  energy := 903 / 10\<rparr>"
    unfolding c
    by (simp add: updateAndCheck_def updatePlayer_def updateObstacles_def updateMelinjos_def
        updateEnergy_def checkCollisions_def overlaps_def sampleState_def initialPlayer_def
        Let_def game_constants)
  with loop have "energy (fst (gameLoop 1016 sampleState)) = 903 / 10"
    and "map x (obstacles (fst (gameLoop 1016 sampleState))) = [115]"
    and "map x (melinjos (fst (gameLoop 1016 sampleState))) = [105]"
    by simp_all
  moreover have "\<not> gameActive ?c" and "energy ?c = 90" and "map x (obstacles ?c) = [120]"
    and "map x (melinjos ?c) = [110]"
    unfolding c by (simp_all add: sampleState_def)
  ultimately show ?thesis
    using active loop by simp
qed

text \<open>
  Claim C2, amended. A frame or a jump request that finds \<open>gameActive\<close> false changes no
  simulation field (the frame loop only stores the timestamp and draws the overlay), so
  after the end of the game no run of events changes the player, the obstacles, the
  pickups, the energy, the game time or \<open>gameActive\<close>. An obstacle collision returns from
  \<open>checkCollisions\<close> at once. In the frame in which the game time reaches the limit, the
  updates and the collision check still run on the state with \<open>gameActive\<close> already false.
\<close>

theorem ended_is_frozen:
  "(\<not> gameActive s \<longrightarrow>
      (\<forall>u. gameLoop u s = (s\<lparr>lastTimestamp := u\<rparr>, Some (drawGameOver s))) \<and>
      (\<forall>code. keydown code s = Some s \<and> keydown_p0 code s = Some s) \<and>
      canvasTouchstart s = Some s \<and> jumpButtonTouchstart s = Some s \<and>
      (\<forall>es. \<exists>u. run es s = Some (s\<lparr>lastTimestamp := u\<rparr>))) \<and>
   (snd (checkObstacles (player s) (obstacles s)) \<longrightarrow>
      checkCollisions s =
        s\<lparr>obstacles := fst (checkObstacles (player s) (obstacles s)), gameActive := False\<rparr>) \<and>
   (gameActive s \<and> gameTime s + (t - lastTimestamp s) / 1000 \<ge> GAME_DURATION \<longrightarrow>
      fst (gameLoop t s) =
        updateAndCheck (s\<lparr>lastTimestamp := t,
                          gameTime := gameTime s + (t - lastTimestamp s) / 1000,
                          gameActive := False\<rparr>))"
proof (intro conjI impI allI)
  assume e: "\<not> gameActive s"
  show "gameLoop u s = (s\<lparr>lastTimestamp := u\<rparr>, Some (drawGameOver s))" for u
    using e by (simp add: gameLoop_ended drawGameOver_lastTimestamp)
  show "keydown code s = Some s" for code
    using e by (simp add: keydown_def)
  show "keydown_p0 code s = Some s" for code
    using e by (simp add: keydown_p0_def)
  show "canvasTouchstart s = Some s"
    using e by (simp add: canvasTouchstart_def)
  show "jumpButtonTouchstart s = Some s"
    using e by (simp add: jumpButtonTouchstart_def)
  show "\<exists>u. run es s = Some (s\<lparr>lastTimestamp := u\<rparr>)" for es
    using e by (rule run_ended)
next
  assume "snd (checkObstacles (player s) (obstacles s))"
  then show "checkCollisions s =
        s\<lparr>obstacles := fst (checkObstacles (player s) (obstacles s)), gameActive := False\<rparr>"
    by (rule checkCollisions_hit)
next
  assume a: "gameActive s \<and> gameTime s + (t - lastTimestamp s) / 1000 \<ge> GAME_DURATION"
  then have "advanceClock (t - lastTimestamp s) (s\<lparr>lastTimestamp := t\<rparr>) =
      s\<lparr>lastTimestamp := t, gameTime := gameTime s + (t - lastTimestamp s) / 1000,
        gameActive := False\<rparr>"
    by (simp add: advanceClock_time_up)
  with a show "fst (gameLoop t s) =
        updateAndCheck (s\<lparr>lastTimestamp := t,
                          gameTime := gameTime s + (t - lastTimestamp s) / 1000,
                          gameActive := False\<rparr>)"
    by (simp add: gameLoop_active)
qed

theorem ended_is_frozen_witness:
  "\<not> gameActive (sampleState\<lparr>gameActive := False\<rparr>) \<and>
   gameLoop 2000 (sampleState\<lparr>gameActive := False\<rparr>)
     = (sampleState\<lparr>gameActive := False, lastTimestamp := 2000\<rparr>, Some GameOver) \<and>
   keydown ''Space'' (sampleState\<lparr>gameActive := False\<rparr>)
     = Some (sampleState\<lparr>gameActive := False\<rparr>) \<and>
   (\<exists>u. run [Keydown ''Space'', Frame 2000, CanvasTouchstart, Frame 2016]
            (sampleState\<lparr>gameActive := False\<rparr>)
          = Some (sampleState\<lparr>gameActive := False, lastTimestamp := u\<rparr>))"
proof -
  let ?s = "sampleState\<lparr>gameActive := False\<rparr>"
  have e: "\<not> gameActive ?s"
    by simp
  have "gameLoop 2000 ?s = (?s\<lparr>lastTimestamp := 2000\<rparr>, Some (drawGameOver ?s))"
    using ended_is_frozen [of ?s] e by blast
  moreover have "drawGameOver ?s = GameOver"
    by (simp add: drawGameOver_def sampleState_def GAME_DURATION_def)
  moreover have "keydown ''Space'' ?s = Some ?s"
    using ended_is_frozen [of ?s] e by blast
  moreover have "\<exists>u. run [Keydown ''Space'', Frame 2000, CanvasTouchstart, Frame 2016] ?s
                     = Some (?s\<lparr>lastTimestamp := u\<rparr>)"
    using ended_is_frozen [of ?s] e by blast
  ultimately show ?thesis
    using e by simp
qed

section \<open>Level generation stays within the track\<close>

lemma newObstacle_x: "x (fst (newObstacle rnd i position)) = position"
  by (simp add: newObstacle_def Let_def)

lemma newMelinjo_x: "x (newMelinjo rnd i position) = position"
  by (simp add: newMelinjo_def Let_def)

lemma obstacle_gap: "300 \<le> 300 + Math_random rnd j * 300 \<and> 300 + Math_random rnd j * 300 < 600"
  using Math_random_range [of rnd j] by simp

lemma melinjo_gap: "200 \<le> 200 + Math_random rnd j * 400 \<and> 200 + Math_random rnd j * 400 < 600"
  using Math_random_range [of rnd j] by simp

lemma generateObstacles_loop_x:
  "\<forall>ob \<in> set obs. 800 \<le> x ob \<and> x ob < totalDistance + 800 \<Longrightarrow> 800 \<le> position \<Longrightarrow>
     \<forall>ob \<in> set (fst (generateObstacles_loop rnd i obs position)).
       800 \<le> x ob \<and> x ob < totalDistance + 800"
proof (induction rnd i obs position rule: generateObstacles_loop.induct)
  case (1 rnd i obs position)
  show ?case
  proof (cases "position < totalDistance + 800")
    case True
    let ?j = "snd (newObstacle rnd i position)"
    have "\<forall>ob \<in> set (obs @ [fst (newObstacle rnd i position)]).
            800 \<le> x ob \<and> x ob < totalDistance + 800"
      using "1.prems" True by (simp add: newObstacle_x)
    moreover have "800 \<le> position + 300 + Math_random rnd ?j * 300"
      using "1.prems"(2) obstacle_gap [of rnd ?j] by simp
    ultimately have "\<forall>ob \<in> set (fst (generateObstacles_loop rnd (?j + 1)
                        (obs @ [fst (newObstacle rnd i position)])
                        (position + 300 + Math_random rnd ?j * 300))).
                       800 \<le> x ob \<and> x ob < totalDistance + 800"
      by (rule "1.IH" [OF True])
    then show ?thesis
      using True by (subst generateObstacles_loop.simps) simp
  next
    case False
    then show ?thesis
      using "1.prems"(1) by (subst generateObstacles_loop.simps) simp
  qed
qed

lemma generateMelinjos_loop_x:
  "\<forall>m \<in> set ms. 800 \<le> x m \<and> x m < totalDistance + 800 \<Longrightarrow> 800 \<le> position \<Longrightarrow>
     \<forall>m \<in> set (fst (generateMelinjos_loop rnd i ms position)).
       800 \<le> x m \<and> x m < totalDistance + 800"
proof (induction rnd i ms position rule: generateMelinjos_loop.induct)
  case (1 rnd i ms position)
  show ?case
  proof (cases "position < totalDistance + 800")
    case True
    have "\<forall>m \<in> set (ms @ [newMelinjo rnd i position]).
            800 \<le> x m \<and> x m < totalDistance + 800"
      using "1.prems" True by (simp add: newMelinjo_x)
    moreover have "800 \<le> position + 200 + Math_random rnd (i + 1) * 400"
      using "1.prems"(2) melinjo_gap [of rnd "i + 1"] by simp
    ultimately have "\<forall>m \<in> set (fst (generateMelinjos_loop rnd (i + 2)
                        (ms @ [newMelinjo rnd i position])
                        (position + 200 + Math_random rnd (i + 1) * 400))).
                       800 \<le> x m \<and> x m < totalDistance + 800"
      by (rule "1.IH" [OF True])
    then show ?thesis
      using True by (subst generateMelinjos_loop.simps) simp
  next
    case False
    then show ?thesis
      using "1.prems"(1) by (subst generateMelinjos_loop.simps) simp
  qed
qed

text \<open>The number of iterations: every iteration uses up at least \<open>gap\<close> of the track.\<close>

lemma iterations_left:
  fixes position bound gap step :: rat
  assumes "position < bound" and "0 < gap" and "gap \<le> step"
  shows "1 + nat \<lceil>(bound - (position + step)) / gap\<rceil> \<le> nat \<lceil>(bound - position) / gap\<rceil>"
proof -
  have "(bound - (position + step)) / gap \<le> (bound - position - gap) / gap"
    using assms by (simp add: divide_right_mono)
  also have "\<dots> = (bound - position) / gap - 1"
    using assms(2) by (simp add: diff_divide_distrib)
  finally have "\<lceil>(bound - (position + step)) / gap\<rceil> \<le> \<lceil>(bound - position) / gap - 1\<rceil>"
    by (rule ceiling_mono)
  then have "\<lceil>(bound - (position + step)) / gap\<rceil> \<le> \<lceil>(bound - position) / gap\<rceil> - 1"
    by simp
  moreover have "0 < (bound - position) / gap"
    using assms by simp
  then have "0 < \<lceil>(bound - position) / gap\<rceil>"
    by simp
  ultimately show ?thesis
    by linarith
qed

lemma generateObstacles_loop_length:
  "length (fst (generateObstacles_loop rnd i obs position))
     \<le> length obs + nat \<lceil>(totalDistance + 800 - position) / 300\<rceil>"
proof (induction rnd i obs position rule: generateObstacles_loop.induct)
  case (1 rnd i obs position)
  show ?case
  proof (cases "position < totalDistance + 800")
    case True
    let ?j = "snd (newObstacle rnd i position)"
    let ?step = "300 + Math_random rnd ?j * 300"
    have "length (fst (generateObstacles_loop rnd i obs position))
            = length (fst (generateObstacles_loop rnd (?j + 1)
                (obs @ [fst (newObstacle rnd i position)]) (position + 300 + Math_random rnd ?j * 300)))"
      using True by (subst generateObstacles_loop.simps) simp
    also have "\<dots> \<le> length (obs @ [fst (newObstacle rnd i position)])
                 + nat \<lceil>(totalDistance + 800 - (position + 300 + Math_random rnd ?j * 300)) / 300\<rceil>"
      by (rule "1.IH" [OF True])
    also have "\<dots> = length obs
                 + (1 + nat \<lceil>(totalDistance + 800 - (position + ?step)) / 300\<rceil>)"
      by (simp add: add.assoc)
    also have "\<dots> \<le> length obs + nat \<lceil>(totalDistance + 800 - position) / 300\<rceil>"
      using iterations_left [OF True, of 300 ?step] obstacle_gap [of rnd ?j] by simp
    finally show ?thesis .
  next
    case False
    then show ?thesis
      by (subst generateObstacles_loop.simps) simp
  qed
qed

lemma generateMelinjos_loop_length:
  "length (fst (generateMelinjos_loop rnd i ms position))
     \<le> length ms + nat \<lceil>(totalDistance + 800 - position) / 200\<rceil>"
proof (induction rnd i ms position rule: generateMelinjos_loop.induct)
  case (1 rnd i ms position)
  show ?case
  proof (cases "position < totalDistance + 800")
    case True
    let ?step = "200 + Math_random rnd (i + 1) * 400"
    have "length (fst (generateMelinjos_loop rnd i ms position))
            = length (fst (generateMelinjos_loop rnd (i + 2)
                (ms @ [newMelinjo rnd i position]) (position + 200 + Math_random rnd (i + 1) * 400)))"
      using True by (subst generateMelinjos_loop.simps) simp
    also have "\<dots> \<le> length (ms @ [newMelinjo rnd i position])
                 + nat \<lceil>(totalDistance + 800 - (position + 200 + Math_random rnd (i + 1) * 400)) / 200\<rceil>"
      by (rule "1.IH" [OF True])
    also have "\<dots> = length ms
                 + (1 + nat \<lceil>(totalDistance + 800 - (position + ?step)) / 200\<rceil>)"
      by (simp add: add.assoc)
    also have "\<dots> \<le> length ms + nat \<lceil>(totalDistance + 800 - position) / 200\<rceil>"
      using iterations_left [OF True, of 200 ?step] melinjo_gap [of rnd "i + 1"] by simp
    finally show ?thesis .
  next
    case False
    then show ?thesis
      by (subst generateMelinjos_loop.simps) simp
  qed
qed

lemma generateObstacles_loop_advance:
  assumes "position < totalDistance + 800"
  shows "\<exists>j p. position + 300 \<le> p \<and>
           generateObstacles_loop rnd i obs position
             = generateObstacles_loop rnd j (obs @ [fst (newObstacle rnd i position)]) p"
proof -
  let ?j = "snd (newObstacle rnd i position)"
  have "generateObstacles_loop rnd i obs position
          = generateObstacles_loop rnd (?j + 1) (obs @ [fst (newObstacle rnd i position)])
              (position + 300 + Math_random rnd ?j * 300)"
    using assms by (subst generateObstacles_loop.simps) simp
  moreover have "position + 300 \<le> position + 300 + Math_random rnd ?j * 300"
    using obstacle_gap [of rnd ?j] by simp
  ultimately show ?thesis
    by blast
qed

lemma generateMelinjos_loop_advance:
  assumes "position < totalDistance + 800"
  shows "\<exists>j p. position + 200 \<le> p \<and>
           generateMelinjos_loop rnd i ms position
             = generateMelinjos_loop rnd j (ms @ [newMelinjo rnd i position]) p"
proof -
  have "generateMelinjos_loop rnd i ms position
          = generateMelinjos_loop rnd (i + 2) (ms @ [newMelinjo rnd i position])
              (position + 200 + Math_random rnd (i + 1) * 400)"
    using assms by (subst generateMelinjos_loop.simps) simp
  moreover have "position + 200 \<le> position + 200 + Math_random rnd (i + 1) * 400"
    using melinjo_gap [of rnd "i + 1"] by simp
  ultimately show ?thesis
    by blast
qed

text \<open>
  Claim C8. With a duration of 30 s and a scroll speed of 5 the generation span is
  \<open>5 * 30 * 60 + 800 = 9800\<close>; level generation terminates (each iteration advances the
  position by at least 300 for obstacles and at least 200 for pickups, so there are at
  most 30 obstacles and 45 pickups), and every obstacle and pickup is created with
  \<open>x\<close> in \<open>[800, 9800 + 800]\<close> (indeed below 9800).
\<close>

theorem generation_within_span:
  "SCROLL_SPEED * GAME_DURATION * 60 + 800 = 9800 \<and>
   (\<forall>ob \<in> set (fst (generateObstacles rnd i)).
      800 \<le> x ob \<and> x ob < 9800 \<and> x ob \<le> 9800 + 800) \<and>
   (\<forall>m \<in> set (fst (generateMelinjos rnd i)).
      800 \<le> x m \<and> x m < 9800 \<and> x m \<le> 9800 + 800) \<and>
   length (fst (generateObstacles rnd i)) \<le> 30 \<and>
   length (fst (generateMelinjos rnd i)) \<le> 45 \<and>
   (\<forall>obs position. position < 9800 \<longrightarrow>
      (\<exists>j p. position + 300 \<le> p \<and>
         generateObstacles_loop rnd i obs position
           = generateObstacles_loop rnd j (obs @ [fst (newObstacle rnd i position)]) p)) \<and>
   (\<forall>ms position. position < 9800 \<longrightarrow>
      (\<exists>j p. position + 200 \<le> p \<and>
         generateMelinjos_loop rnd i ms position
           = generateMelinjos_loop rnd j (ms @ [newMelinjo rnd i position]) p)) \<and>
   (\<forall>ob \<in> set (obstacles (onload rnd)). 800 \<le> x ob \<and> x ob \<le> 9800 + 800) \<and>
   (\<forall>m \<in> set (melinjos (onload rnd)). 800 \<le> x m \<and> x m \<le> 9800 + 800)"
proof -
  have span: "totalDistance + 800 = 9800"
    by (simp add: totalDistance_value)
  have obs: "\<forall>ob \<in> set (fst (generateObstacles rnd k)). 800 \<le> x ob \<and> x ob < 9800" for k
    using generateObstacles_loop_x [of "[]" 800 rnd k]
    by (simp add: generateObstacles_def span)
  have ms: "\<forall>m \<in> set (fst (generateMelinjos rnd k)). 800 \<le> x m \<and> x m < 9800" for k
    using generateMelinjos_loop_x [of "[]" 800 rnd k]
    by (simp add: generateMelinjos_def span)
  have "length (fst (generateObstacles rnd i)) \<le> 30"
    using generateObstacles_loop_length [of rnd i "[]" 800]
    by (simp add: generateObstacles_def totalDistance_value)
  moreover have "length (fst (generateMelinjos rnd i)) \<le> 45"
    using generateMelinjos_loop_length [of rnd i "[]" 800]
    by (simp add: generateMelinjos_def totalDistance_value)
  moreover have "SCROLL_SPEED * GAME_DURATION * 60 + 800 = 9800"
    by (simp add: game_constants)
  moreover have "\<forall>obs position. position < 9800 \<longrightarrow>
      (\<exists>j p. position + 300 \<le> p \<and>
         generateObstacles_loop rnd i obs position
           = generateObstacles_loop rnd j (obs @ [fst (newObstacle rnd i position)]) p)"
    using generateObstacles_loop_advance [of _ rnd i] by (simp add: span)
  moreover have "\<forall>ms position. position < 9800 \<longrightarrow>
      (\<exists>j p. position + 200 \<le> p \<and>
         generateMelinjos_loop rnd i ms position
           = generateMelinjos_loop rnd j (ms @ [newMelinjo rnd i position]) p)"
    using generateMelinjos_loop_advance [of _ rnd i] by (simp add: span)
  moreover have "\<forall>ob \<in> set (fst (generateObstacles rnd i)).
      800 \<le> x ob \<and> x ob < 9800 \<and> x ob \<le> 9800 + 800"
    using obs [of i] by auto
  moreover have "\<forall>m \<in> set (fst (generateMelinjos rnd i)).
      800 \<le> x m \<and> x m < 9800 \<and> x m \<le> 9800 + 800"
    using ms [of i] by auto
  moreover have "\<forall>ob \<in> set (obstacles (onload rnd)). 800 \<le> x ob \<and> x ob \<le> 9800 + 800"
    using obs [of 0] by (auto simp add: onload_def split_beta)
  moreover have "\<forall>m \<in> set (melinjos (onload rnd)). 800 \<le> x m \<and> x m \<le> 9800 + 800"
    using ms [of "snd (generateObstacles rnd 0)"] by (auto simp add: onload_def split_beta)
  ultimately show ?thesis
    by blast
qed

lemma generateObstacles_zero:
  "map x (fst (generateObstacles (\<lambda>_. draw_zero) 0)) =
     [800, 1100, 1400, 1700, 2000, 2300, 2600, 2900, 3200, 3500, 3800, 4100, 4400, 4700, 5000,
      5300, 5600, 5900, 6200, 6500, 6800, 7100, 7400, 7700, 8000, 8300, 8600, 8900, 9200, 9500]"
  by (simp add: generateObstacles_def generateObstacles_loop.simps newObstacle_def
      totalDistance_value Let_def)

lemma generateMelinjos_zero:
  "map x (fst (generateMelinjos (\<lambda>_. draw_zero) 0)) =
     [800, 1000, 1200, 1400, 1600, 1800, 2000, 2200, 2400, 2600, 2800, 3000, 3200, 3400, 3600,
      3800, 4000, 4200, 4400, 4600, 4800, 5000, 5200, 5400, 5600, 5800, 6000, 6200, 6400, 6600,
      6800, 7000, 7200, 7400, 7600, 7800, 8000, 8200, 8400, 8600, 8800, 9000, 9200, 9400, 9600]"
  by (simp add: generateMelinjos_def generateMelinjos_loop.simps newMelinjo_def
      totalDistance_value Let_def)

theorem generation_within_span_witness:
  "length (fst (generateObstacles (\<lambda>_. draw_zero) 0)) = 30 \<and>
   x (hd (fst (generateObstacles (\<lambda>_. draw_zero) 0))) = 800 \<and>
   x (last (fst (generateObstacles (\<lambda>_. draw_zero) 0))) = 9500 \<and>
   800 \<le> x (last (fst (generateObstacles (\<lambda>_. draw_zero) 0))) \<and>
   x (last (fst (generateObstacles (\<lambda>_. draw_zero) 0))) \<le> 9800 + 800 \<and>
   length (fst (generateMelinjos (\<lambda>_. draw_zero) 0)) = 45 \<and>
   x (last (fst (generateMelinjos (\<lambda>_. draw_zero) 0))) = 9600 \<and>
   800 \<le> x (last (fst (generateMelinjos (\<lambda>_. draw_zero) 0))) \<and>
   x (last (fst (generateMelinjos (\<lambda>_. draw_zero) 0))) \<le> 9800 + 800"
proof -
  let ?obs = "fst (generateObstacles (\<lambda>_. draw_zero) 0)"
  let ?ms = "fst (generateMelinjos (\<lambda>_. draw_zero) 0)"
  have lo: "length (map x ?obs) = 30" and lm: "length (map x ?ms) = 45"
    unfolding generateObstacles_zero generateMelinjos_zero by simp_all
  then have ne: "?obs \<noteq> []" "?ms \<noteq> []"
    by auto
  then have "last ?obs \<in> set ?obs" and "last ?ms \<in> set ?ms"
    by simp_all
  with generation_within_span [of "\<lambda>_. draw_zero" 0]
  have bounds: "800 \<le> x (last ?obs) \<and> x (last ?obs) \<le> 9800 + 800 \<and>
                800 \<le> x (last ?ms) \<and> x (last ?ms) \<le> 9800 + 800"
    by blast
  have "x (hd ?obs) = hd (map x ?obs)" and "x (last ?obs) = last (map x ?obs)"
    and "x (last ?ms) = last (map x ?ms)"
    using ne by (simp_all add: hd_map last_map)
  then have "x (hd ?obs) = 800" and "x (last ?obs) = 9500" and "x (last ?ms) = 9600"
    unfolding generateObstacles_zero generateMelinjos_zero by simp_all
  with lo lm bounds show ?thesis
    by simp
qed

section \<open>The two variants agree\<close>

lemma generateObstacles_loop_p0_eq:
  "generateObstacles_loop_p0 rnd i obs position = generateObstacles_loop rnd i obs position"
proof (induction rnd i obs position rule: generateObstacles_loop.induct)
  case (1 rnd i obs position)
  show ?case
  proof (cases "position < totalDistance + 800")
    case True
    then have "generateObstacles_loop_p0 rnd i obs position
        = generateObstacles_loop_p0 rnd (snd (newObstacle rnd i position) + 1)
            (obs @ [fst (newObstacle rnd i position)])
            (position + 300 + Math_random rnd (snd (newObstacle rnd i position)) * 300)"
      by (subst generateObstacles_loop_p0.simps)
        (simp add: newObstacle_def totalDistance_def Let_def)
    also have "\<dots> = generateObstacles_loop rnd (snd (newObstacle rnd i position) + 1)
            (obs @ [fst (newObstacle rnd i position)])
            (position + 300 + Math_random rnd (snd (newObstacle rnd i position)) * 300)"
      by (rule "1.IH" [OF True])
    also have "\<dots> = generateObstacles_loop rnd i obs position"
      using True by (subst (2) generateObstacles_loop.simps) simp
    finally show ?thesis .
  next
    case False
    then have "generateObstacles_loop_p0 rnd i obs position = (obs, i)"
      by (subst generateObstacles_loop_p0.simps) (simp add: totalDistance_def)
    moreover have "generateObstacles_loop rnd i obs position = (obs, i)"
      using False by (subst generateObstacles_loop.simps) simp
    ultimately show ?thesis
      by simp
  qed
qed

lemma generateMelinjos_loop_p0_eq:
  "generateMelinjos_loop_p0 rnd i ms position = generateMelinjos_loop rnd i ms position"
proof (induction rnd i ms position rule: generateMelinjos_loop.induct)
  case (1 rnd i ms position)
  show ?case
  proof (cases "position < totalDistance + 800")
    case True
    then have "generateMelinjos_loop_p0 rnd i ms position
        = generateMelinjos_loop_p0 rnd (i + 2) (ms @ [newMelinjo rnd i position])
            (position + 200 + Math_random rnd (i + 1) * 400)"
      by (subst generateMelinjos_loop_p0.simps)
        (simp add: newMelinjo_def totalDistance_def Let_def)
    also have "\<dots> = generateMelinjos_loop rnd (i + 2) (ms @ [newMelinjo rnd i position])
            (position + 200 + Math_random rnd (i + 1) * 400)"
      by (rule "1.IH" [OF True])
    also have "\<dots> = generateMelinjos_loop rnd i ms position"
      using True by (subst (2) generateMelinjos_loop.simps) simp
    finally show ?thesis .
  next
    case False
    then have "generateMelinjos_loop_p0 rnd i ms position = (ms, i)"
      by (subst generateMelinjos_loop_p0.simps) (simp add: totalDistance_def)
    moreover have "generateMelinjos_loop rnd i ms position = (ms, i)"
      using False by (subst generateMelinjos_loop.simps) simp
    ultimately show ?thesis
      by simp
  qed
qed

lemma onload_p0_eq: "onload_p0 rnd = onload rnd"
  by (simp add: onload_p0_def onload_def initialPlayer_def generateObstacles_p0_def
      generateObstacles_def generateMelinjos_p0_def generateMelinjos_def
      generateObstacles_loop_p0_eq generateMelinjos_loop_p0_eq Let_def)

lemma updatePlayer_p0_eq: "updatePlayer_p0 s = updatePlayer s"
  by (simp add: updatePlayer_p0_def updatePlayer_def Let_def)

lemma updateObstacles_p0_eq: "updateObstacles_p0 s = updateObstacles s"
  by (simp add: updateObstacles_p0_def updateObstacles_def)

lemma updateMelinjos_p0_eq: "updateMelinjos_p0 s = updateMelinjos s"
  by (simp add: updateMelinjos_p0_def updateMelinjos_def)

lemma updateEnergy_p0_eq: "updateEnergy_p0 s = updateEnergy s"
  by (simp add: updateEnergy_p0_def updateEnergy_def Let_def)

lemma checkObstacles_p0_eq: "checkObstacles_p0 p obs = checkObstacles p obs"
  by (induction obs) (simp_all add: overlaps_def Let_def)

lemma checkMelinjos_p0_eq: "checkMelinjos_p0 p ms e = checkMelinjos p ms e"
  by (induction ms arbitrary: e) (simp_all add: overlaps_def Let_def)

lemma checkCollisions_p0_eq: "checkCollisions_p0 s = checkCollisions s"
  by (simp add: checkCollisions_p0_def checkCollisions_def checkObstacles_p0_eq
      checkMelinjos_p0_eq Let_def split_beta)

lemma drawGameOver_p0_eq: "drawGameOver_p0 s = drawGameOver s"
  by (simp add: drawGameOver_p0_def drawGameOver_def)

lemma gameLoop_p0_eq: "gameLoop_p0 t s = gameLoop t s"
  by (simp add: gameLoop_p0_def gameLoop_def advanceClock_def updateAndCheck_def
      checkCollisions_p0_eq updateEnergy_p0_eq updateMelinjos_p0_eq updateObstacles_p0_eq
      updatePlayer_p0_eq drawGameOver_p0_eq Let_def)

text \<open>
  Claim C9. The two program variants implement the same simulation: for every state,
  every jump request and every frame input (timestamp and random draws), the jump
  handling, the physics update, level generation, scrolling, the energy update and the
  collision and end-state logic of \<open>game.js\<close> and of the second file give equal results.
\<close>

theorem variants_agree:
  "keydown_p0 code s = keydown code s \<and>
   updatePlayer_p0 s = updatePlayer s \<and>
   generateObstacles_p0 rnd i = generateObstacles rnd i \<and>
   generateMelinjos_p0 rnd i = generateMelinjos rnd i \<and>
   onload_p0 rnd = onload rnd \<and>
   updateObstacles_p0 s = updateObstacles s \<and>
   updateMelinjos_p0 s = updateMelinjos s \<and>
   updateEnergy_p0 s = updateEnergy s \<and>
   checkCollisions_p0 s = checkCollisions s \<and>
   drawGameOver_p0 s = drawGameOver s \<and>
   gameLoop_p0 t s = gameLoop t s"
  by (simp add: keydown_p0_handleJump keydown_def updatePlayer_p0_eq
      generateObstacles_p0_def generateObstacles_def generateObstacles_loop_p0_eq
      generateMelinjos_p0_def generateMelinjos_def generateMelinjos_loop_p0_eq
      onload_p0_eq updateObstacles_p0_eq updateMelinjos_p0_eq updateEnergy_p0_eq
      checkCollisions_p0_eq drawGameOver_p0_eq gameLoop_p0_eq)

theorem variants_agree_witness:
  "keydown_p0 ''Space'' sampleAirborne = keydown ''Space'' sampleAirborne \<and>
   energy (the (keydown_p0 ''Space'' sampleAirborne)) = 30 \<and>
   gameLoop_p0 1016 sampleState = gameLoop 1016 sampleState \<and>
   snd (gameLoop_p0 1016 sampleState) = Some LevelComplete \<and>
   onload_p0 (\<lambda>_. draw_half) = onload (\<lambda>_. draw_half)"
proof -
  have "keydown ''Space'' sampleAirborne =
      Some (sampleAirborne\<lparr>player := (player sampleAirborne)
              \<lparr>velocityY := - 15 / 2, jumpCount := 2\<rparr>, energy := 30\<rparr>)"
    by (simp add: keydown_def handleJump_def sampleAirborne_def sampleState_def game_constants)
  then have "energy (the (keydown_p0 ''Space'' sampleAirborne)) = 30"
    using variants_agree [of "''Space''" sampleAirborne] by simp
  moreover have "snd (gameLoop 1016 sampleState) = Some LevelComplete"
    using gameLoop_time_up [of sampleState 1016]
    by (simp add: sampleState_def GAME_DURATION_def)
  then have "snd (gameLoop_p0 1016 sampleState) = Some LevelComplete"
    using variants_agree [of _ sampleState _ _ 1016] by simp
  ultimately show ?thesis
    using variants_agree [of "''Space''" sampleAirborne "\<lambda>_. draw_half"]
      variants_agree [of _ sampleState _ _ 1016]
    by simp
qed

end
